theory Spec2Isabelle
  imports Main "HOL-Library.Multiset" "HOL-Library.Char_ord" "HOL-Library.List_Lexorder"
    "HOL-Library.Product_Lexorder"
begin

section \<open>Values shared by the models\<close>

text \<open>
  An application reference as the JavaScript callers pass it: \<open>null\<close>/\<open>undefined\<close>, a number
  or a string (a legacy application name or an \<open>owner/app\<close> slug).
\<close>

datatype ref = Null | Num int | Str string

text \<open>
  The errors the models throw. \<open>Error\<close> is the plain JavaScript \<open>Error\<close> with its
  message, \<open>TypeError\<close> the one the runtime raises, \<open>RequestError\<close> a failure of the
  transport collaborator.
\<close>

datatype error =
    BalenaApplicationNotFound ref
  | BalenaAmbiguousApplication ref
  | BalenaInvalidParameterError string ref
  | BalenaInvalidDeviceType string
  | BalenaDiscontinuedDeviceType string
  | BalenaOrganizationNotFound ref
  | BalenaReleaseNotFound string
  | ResinApplicationNotFound ref
  | ResinAmbiguousApplication ref
  | ResinInvalidDeviceType string
  | Error string
  | TypeError string
  | RequestError string

section \<open>Regular expressions\<close>

text \<open>
  The fragment of JavaScript regular expressions that \<open>RESINOS_VERSION_REGEX\<close> uses.
  \<open>Atom p\<close> matches one character satisfying \<open>p\<close>.
\<close>

datatype regex =
    Zero
  | One
  | Atom "char \<Rightarrow> bool"
  | Alt regex regex
  | Seq regex regex
  | Star regex

definition Opt :: "regex \<Rightarrow> regex" where
  "Opt r = Alt r One"

definition Plus :: "regex \<Rightarrow> regex" where
  "Plus r = Seq r (Star r)"

definition Chr :: "char \<Rightarrow> regex" where
  "Chr c = Atom (\<lambda>x. x = c)"

definition is_digit :: "char \<Rightarrow> bool" where
  "is_digit c = (c \<in> set ''0123456789'')"

text \<open>\<open>\d\<close>, and \<open>.\<close>, which matches any character but a line terminator.\<close>

definition Digit :: regex where
  "Digit = Atom is_digit"

definition Dot :: regex where
  "Dot = Atom (\<lambda>c. c \<noteq> CHR 0x0A \<and> c \<noteq> CHR 0x0D)"

definition AnyChar :: regex where
  "AnyChar = Atom (\<lambda>c. True)"

primrec nullable :: "regex \<Rightarrow> bool" where
  "nullable Zero = False"
| "nullable One = True"
| "nullable (Atom p) = False"
| "nullable (Alt r s) = (nullable r \<or> nullable s)"
| "nullable (Seq r s) = (nullable r \<and> nullable s)"
| "nullable (Star r) = True"

primrec deriv :: "char \<Rightarrow> regex \<Rightarrow> regex" where
  "deriv c Zero = Zero"
| "deriv c One = Zero"
| "deriv c (Atom p) = (if p c then One else Zero)"
| "deriv c (Alt r s) = Alt (deriv c r) (deriv c s)"
| "deriv c (Seq r s) =
     (if nullable r then Alt (Seq (deriv c r) s) (deriv c s) else Seq (deriv c r) s)"
| "deriv c (Star r) = Seq (deriv c r) (Star r)"

text \<open>\<open>matches r s\<close>: the whole of \<open>s\<close> matches \<open>r\<close>.\<close>

definition matches :: "regex \<Rightarrow> string \<Rightarrow> bool" where
  "matches r s = nullable (foldl (\<lambda>q c. deriv c q) r s)"

text \<open>
  \<open>RegExp.prototype.test\<close> for a pattern without anchors: the match may start and end
  anywhere in the string.
\<close>

definition regex_test :: "regex \<Rightarrow> string \<Rightarrow> bool" where
  "regex_test r s = matches (Seq (Star AnyChar) (Seq r (Star AnyChar))) s"

text \<open>The languages of the expressions, to reason about the matcher.\<close>

definition conc :: "string set \<Rightarrow> string set \<Rightarrow> string set" where
  "conc A B = {u @ v | u v. u \<in> A \<and> v \<in> B}"

inductive_set star :: "string set \<Rightarrow> string set" for A :: "string set" where
  star_nil: "[] \<in> star A"
| star_app: "u \<in> A \<Longrightarrow> v \<in> star A \<Longrightarrow> u @ v \<in> star A"

primrec lang :: "regex \<Rightarrow> string set" where
  "lang Zero = {}"
| "lang One = {[]}"
| "lang (Atom p) = {[c] | c. p c}"
| "lang (Alt r s) = lang r \<union> lang s"
| "lang (Seq r s) = conc (lang r) (lang s)"
| "lang (Star r) = star (lang r)"

section \<open>The OS model (\<open>build/models/os.js\<close>)\<close>

subsection \<open>Version strings\<close>

text \<open>
  \<open>RESINOS_VERSION_REGEX = /v?\d+\.\d+\.\d+(\.rev\d+)?((\-|\+).+)?/\<close>
\<close>

definition RESINOS_VERSION_REGEX :: regex where
  "RESINOS_VERSION_REGEX =
     Seq (Opt (Chr CHR ''v''))
       (Seq (Plus Digit) (Seq (Chr CHR ''.'')
         (Seq (Plus Digit) (Seq (Chr CHR ''.'')
           (Seq (Plus Digit)
             (Seq (Opt (Seq (Chr CHR ''.'') (Seq (Chr CHR ''r'') (Seq (Chr CHR ''e'')
                     (Seq (Chr CHR ''v'') (Plus Digit))))))
               (Opt (Seq (Alt (Chr CHR ''-'') (Chr CHR ''+'')) (Plus Dot)))))))))"

text \<open>
  \<open>normalizeVersion\<close>: an empty version is refused, \<open>'latest'\<close> is returned as it is, one
  leading \<open>v\<close> is dropped and the rest is tested against the pattern.
\<close>

definition normalizeVersion :: "string \<Rightarrow> error + string" where
  "normalizeVersion v =
     (if v = [] then Inl (Error (''Invalid version: '' @ v))
      else if v = ''latest'' then Inr v
      else
        let vNormalized = (if hd v = CHR ''v'' then tl v else v)
        in if \<not> regex_test RESINOS_VERSION_REGEX vNormalized
           then Inl (Error (''Invalid semver version: '' @ v))
           else Inr vNormalized)"

text \<open>
  The pattern \<open>major.minor.patch[.revN][-/+suffix]\<close> as the specification words it: the
  whole string is a version, nothing before it and nothing after it.
\<close>

definition strict_version_pattern :: regex where
  "strict_version_pattern =
     Seq (Plus Digit) (Seq (Chr CHR ''.'')
       (Seq (Plus Digit) (Seq (Chr CHR ''.'')
         (Seq (Plus Digit)
           (Seq (Opt (Seq (Chr CHR ''.'') (Seq (Chr CHR ''r'') (Seq (Chr CHR ''e'')
                   (Seq (Chr CHR ''v'') (Plus Digit))))))
             (Opt (Seq (Alt (Chr CHR ''-'') (Chr CHR ''+'')) (Plus Dot))))))))"

definition conforms :: "string \<Rightarrow> bool" where
  "conforms s = matches strict_version_pattern s"

subsection \<open>The semantic-version library\<close>

text \<open>
  \<open>resin-semver\<close> is a library the model requires; the OS model is given its functions
  as parameters. \<open>semver.rcompare(a, b)\<close> is negative when \<open>a\<close> has the higher
  precedence, \<open>semver.prerelease(v)\<close> is the list of pre-release components of \<open>v\<close> or
  \<open>null\<close>. \<open>semver.maxSatisfying\<close> takes whatever JavaScript value the caller passes as
  its list of versions.
\<close>

record os_versions =
  versions :: "string list"
  recommended :: "string option"
  latest :: "string option"
  default_version :: "string option"

datatype js_value = JSArray "string list" | JSSupportedVersions os_versions

record semver_lib =
  rcompare :: "string \<Rightarrow> string \<Rightarrow> int"
  prerelease :: "string \<Rightarrow> string list option"
  maxSatisfying :: "js_value \<Rightarrow> string \<Rightarrow> error + string option"

text \<open>
  \<open>Array.prototype.sort\<close> with a comparator: a stable sort, \<open>x\<close> staying before \<open>y\<close>
  when \<open>cmp x y \<le> 0\<close>.
\<close>

fun js_insert :: "('a \<Rightarrow> 'a \<Rightarrow> int) \<Rightarrow> 'a \<Rightarrow> 'a list \<Rightarrow> 'a list" where
  "js_insert cmp x [] = [x]"
| "js_insert cmp x (y # ys) = (if cmp x y \<le> 0 then x # y # ys else y # js_insert cmp x ys)"

definition js_sort :: "('a \<Rightarrow> 'a \<Rightarrow> int) \<Rightarrow> 'a list \<Rightarrow> 'a list" where
  "js_sort cmp xs = foldr (js_insert cmp) xs []"

subsection \<open>Supported versions\<close>

text \<open>
  The body of the image maker's answer to \<open>/image/<deviceType>/versions\<close>: the versions
  and the version the server reports as latest.
\<close>

record versions_body =
  body_versions :: "string list"
  body_latest :: "string option"

text \<open>
  What the OS model is built on: the semver library, \<open>isDevelopmentVersion\<close> and
  \<open>deviceTypes.findBySlug\<close> of \<open>../util\<close>, the device types the config model fetches
  and the image maker answering a url. The last two are requests and may fail.
\<close>

record os_deps =
  semver :: semver_lib
  isDevelopmentVersion :: "string \<Rightarrow> bool"
  findBySlug :: "string list \<Rightarrow> string \<Rightarrow> string option"
  getDeviceTypes :: "error + string list"
  imgMakerRequest :: "string \<Rightarrow> error + versions_body"

definition isValidDeviceType :: "os_deps \<Rightarrow> string \<Rightarrow> error + bool" where
  "isValidDeviceType deps deviceType =
     (case getDeviceTypes deps of
        Inl e \<Rightarrow> Inl e
      | Inr types \<Rightarrow> Inr (findBySlug deps types deviceType \<noteq> None))"

text \<open>
  The \<open>postProcess\<close> of \<open>getOsVersions\<close>. \<open>x || null\<close> and \<open>recommended || latest\<close> take
  the right-hand side when the left is \<open>undefined\<close>, \<open>null\<close> or the empty string.
\<close>

definition postProcess :: "os_deps \<Rightarrow> versions_body \<Rightarrow> os_versions" where
  "postProcess deps body =
     (let versions = js_sort (rcompare (semver deps)) (body_versions body);
          latest = body_latest body;
          potentialRecommendedVersions =
            filter (\<lambda>version. \<not> (prerelease (semver deps) version \<noteq> None
                                  \<or> isDevelopmentVersion deps version)) versions;
          recommended =
            (case potentialRecommendedVersions of
               [] \<Rightarrow> None
             | v # _ \<Rightarrow> if v = [] then None else Some v)
      in \<lparr>versions = versions,
          recommended = recommended,
          latest = latest,
          default_version = (case recommended of Some r \<Rightarrow> Some r | None \<Rightarrow> latest)\<rparr>)"

definition getOsVersions :: "os_deps \<Rightarrow> string \<Rightarrow> error + os_versions" where
  "getOsVersions deps deviceType =
     (case imgMakerRequest deps (''/image/'' @ deviceType @ ''/versions'') of
        Inl e \<Rightarrow> Inl e
      | Inr body \<Rightarrow> Inr (postProcess deps body))"

definition getSupportedVersions :: "os_deps \<Rightarrow> string \<Rightarrow> error + os_versions" where
  "getSupportedVersions deps deviceType =
     (case isValidDeviceType deps deviceType of
        Inl e \<Rightarrow> Inl e
      | Inr isValid \<Rightarrow>
          if \<not> isValid then Inl (ResinInvalidDeviceType ''No such device type'')
          else getOsVersions deps deviceType)"

subsection \<open>The highest version in a range\<close>

text \<open>\<open>osVersions[versionOrRange]\<close> for the three tokens.\<close>

definition os_versions_field :: "os_versions \<Rightarrow> string \<Rightarrow> string option" where
  "os_versions_field osVersions key =
     (if key = ''default'' then default_version osVersions
      else if key = ''latest'' then latest osVersions
      else recommended osVersions)"

text \<open>
  \<open>_getMaxSatisfyingVersion\<close>. The source hands \<open>osVersions\<close>, the whole object, to
  \<open>semver.maxSatisfying\<close>.
\<close>

definition priv_getMaxSatisfyingVersion ::
  "os_deps \<Rightarrow> string \<Rightarrow> os_versions \<Rightarrow> error + string option" where
  "priv_getMaxSatisfyingVersion deps versionOrRange osVersions =
     (if versionOrRange = ''default'' \<or> versionOrRange = ''latest''
         \<or> versionOrRange = ''recommended''
      then Inr (os_versions_field osVersions versionOrRange)
      else maxSatisfying (semver deps) (JSSupportedVersions osVersions) versionOrRange)"

definition getMaxSatisfyingVersion ::
  "os_deps \<Rightarrow> string \<Rightarrow> string option \<Rightarrow> error + string option" where
  "getMaxSatisfyingVersion deps deviceType versionOrRange =
     (let versionOrRange = (case versionOrRange of None \<Rightarrow> ''latest'' | Some r \<Rightarrow> r)
      in case isValidDeviceType deps deviceType of
           Inl e \<Rightarrow> Inl e
         | Inr isValid \<Rightarrow>
             if \<not> isValid then Inl (ResinInvalidDeviceType ''No such device type'')
             else (case getSupportedVersions deps deviceType of
                     Inl e \<Rightarrow> Inl e
                   | Inr osVersions \<Rightarrow>
                       priv_getMaxSatisfyingVersion deps versionOrRange osVersions))"

subsection \<open>A model of the library on plain semantic versions\<close>

text \<open>
  The precedence of \<open>major.minor.patch[-prerelease][+build]\<close>: the numbers in order, a
  version without a pre-release above one with, pre-release components in order with a
  numeric component below an alphanumeric one. Build metadata does not count.
\<close>

fun split_on :: "char \<Rightarrow> string \<Rightarrow> string list" where
  "split_on c [] = [[]]"
| "split_on c (x # xs) =
     (if x = c then [] # split_on c xs
      else (case split_on c xs of [] \<Rightarrow> [[x]] | w # ws \<Rightarrow> (x # w) # ws))"

definition digit_value :: "char \<Rightarrow> nat" where
  "digit_value c = of_char c - 48"

definition number_of :: "string \<Rightarrow> nat" where
  "number_of s = foldl (\<lambda>n c. 10 * n + digit_value c) 0 s"

definition version_core :: "string \<Rightarrow> string" where
  "version_core v = takeWhile (\<lambda>c. c \<noteq> CHR ''-'' \<and> c \<noteq> CHR ''+'') v"

definition prerelease_components :: "string \<Rightarrow> string list" where
  "prerelease_components v =
     (case dropWhile (\<lambda>c. c \<noteq> CHR ''-'' \<and> c \<noteq> CHR ''+'') v of
        [] \<Rightarrow> []
      | c # rest \<Rightarrow>
          if c = CHR ''-'' then split_on CHR ''.'' (takeWhile (\<lambda>c. c \<noteq> CHR ''+'') rest)
          else [])"

definition component_key :: "string \<Rightarrow> bool \<times> nat \<times> string" where
  "component_key s =
     (if s \<noteq> [] \<and> list_all is_digit s then (False, number_of s, []) else (True, 0, s))"

definition precedence_key ::
  "string \<Rightarrow> nat list \<times> bool \<times> (bool \<times> nat \<times> string) list" where
  "precedence_key v =
     (map number_of (split_on CHR ''.'' (version_core v)),
      prerelease_components v = [],
      map component_key (prerelease_components v))"

definition model_rcompare :: "string \<Rightarrow> string \<Rightarrow> int" where
  "model_rcompare a b =
     (if precedence_key b < precedence_key a then - 1
      else if precedence_key a < precedence_key b then 1 else 0)"

definition model_prerelease :: "string \<Rightarrow> string list option" where
  "model_prerelease v =
     (if prerelease_components v = [] then None else Some (prerelease_components v))"

text \<open>
  \<open>maxSatisfying\<close> walks its first argument with the array's \<open>forEach\<close>; on a value that
  is no array the call is a \<open>TypeError\<close>. On an array it keeps the highest version
  that satisfies the range, \<open>null\<close> when none does. What satisfies a range is a
  parameter.
\<close>

definition model_maxSatisfying ::
  "(string \<Rightarrow> string \<Rightarrow> bool) \<Rightarrow> js_value \<Rightarrow> string \<Rightarrow> error + string option" where
  "model_maxSatisfying satisfies vs versionRange =
     (case vs of
        JSArray xs \<Rightarrow>
          Inr (case js_sort model_rcompare (filter (\<lambda>v. satisfies v versionRange) xs) of
                 [] \<Rightarrow> None
               | v # _ \<Rightarrow> Some v)
      | JSSupportedVersions _ \<Rightarrow> Inl (TypeError ''versions.forEach is not a function''))"

definition model_semver :: "(string \<Rightarrow> string \<Rightarrow> bool) \<Rightarrow> semver_lib" where
  "model_semver satisfies =
     \<lparr>rcompare = model_rcompare,
      prerelease = model_prerelease,
      maxSatisfying = model_maxSatisfying satisfies\<rparr>"

text \<open>
  Modelled from the spec: \<open>isDevelopmentVersion\<close> of \<open>../util\<close>, which is not among the
  sources. A version is development tagged when it carries a \<open>dev\<close> tag, that is
  \<open>dev\<close> after a \<open>.\<close>, a \<open>+\<close> or a \<open>-\<close>.
\<close>

definition model_isDevelopmentVersion :: "string \<Rightarrow> bool" where
  "model_isDevelopmentVersion v =
     regex_test
       (Seq (Alt (Chr CHR ''.'') (Alt (Chr CHR ''+'') (Chr CHR ''-'')))
         (Seq (Chr CHR ''d'') (Seq (Chr CHR ''e'') (Chr CHR ''v''))))
       v"

text \<open>
  A catalog with one device type and an image maker that answers the versions request
  for it with a given body; the library is the model above.
\<close>

definition example_os_deps :: "(string \<Rightarrow> string \<Rightarrow> bool) \<Rightarrow> versions_body \<Rightarrow> os_deps" where
  "example_os_deps satisfies body =
     \<lparr>semver = model_semver satisfies,
      isDevelopmentVersion = model_isDevelopmentVersion,
      findBySlug = (\<lambda>types slug. find (\<lambda>t. t = slug) types),
      getDeviceTypes = Inr [''raspberry-pi''],
      imgMakerRequest =
        (\<lambda>url. if url = ''/image/raspberry-pi/versions'' then Inr body
              else Inl (RequestError ''404''))\<rparr>"

section \<open>The application model (\<open>lib/models/application.ts\<close>)\<close>

subsection \<open>The resources behind the query interface\<close>

text \<open>
  The model talks to the API through \<open>pine\<close>, a collaborator. Its side is modelled as
  tables of rows and a log of the requests the model issues. A request can fail in the
  transport, whatever the tables hold: \<open>fault\<close> says which do.
\<close>

record release =
  release_id :: int
  commit :: string
  belongs_to__application :: int
  is_final :: bool
  is_passing_tests :: bool
  is_invalidated :: bool
  status :: string
  created_at :: nat

record device =
  device_id :: int
  device_belongs_to__application :: int
  os_version :: string

record application_row =
  row_id :: int
  row_app_name :: string
  row_slug :: string
  row_should_track_latest_release :: bool
  row_should_be_running__release :: "int option"

record organization_row =
  org_id :: int
  handle :: string

text \<open>A device type of the catalog, as \<open>getManifestBySlug\<close> of the device model gives it.\<close>

record device_manifest =
  manifest_slug :: string
  state :: string

text \<open>
  The body of a creation request and of an update: a field that is \<open>None\<close> is left out
  of the body.
\<close>

record submit_body =
  body_app_name :: string
  body_is_for__device_type :: int
  body_depends_on__application :: "int option"
  body_application_type :: "int option"
  body_organization :: "int option"

record patch_body =
  patch_should_be_running__release :: "int option"
  patch_should_track_latest_release :: "bool option"

datatype request =
    PineGet string
  | PinePost string
  | PinePatch string int patch_body

text \<open>
  The remote side. \<open>getManifestBySlug\<close> (device model), \<open>normalizeDeviceOsVersion\<close>
  (\<open>../util/device-os-version\<close>) and the server's handling of a creation request are
  not among the sources and are parameters.
\<close>

record world =
  applications :: "application_row list"
  releases :: "release list"
  devices :: "device list"
  application_types :: "(string \<times> int) list"
  device_types :: "(string \<times> int) list"
  organizations :: "organization_row list"
  getManifestBySlug :: "string \<Rightarrow> error + device_manifest option"
  normalizeDeviceOsVersion :: "device \<Rightarrow> device"
  post_application :: "submit_body \<Rightarrow> error + application_row"
  fault :: "request \<Rightarrow> error option"
  requests :: "request list"

definition issue :: "request \<Rightarrow> world \<Rightarrow> world" where
  "issue r w = w\<lparr>requests := requests w @ [r]\<rparr>"

subsection \<open>Query options\<close>

text \<open>
  The options of a query on applications that this model uses: a filter of the caller,
  and the expansions of the pinned release, of the owned releases (filtered, ordered by
  creation time descending when asked, cut to \<open>$top\<close>) and of the owned devices.
  \<open>$select\<close> only narrows the fields that travel and is left out.
\<close>

record release_query =
  rq_filter :: "release \<Rightarrow> bool"
  rq_orderby_created_at_desc :: bool
  rq_top :: "nat option"

record pine_options =
  opt_filter :: "(application_row \<Rightarrow> bool) option"
  expand_should_be_running__release :: bool
  expand_owns__release :: "release_query option"
  expand_owns__device :: bool

definition no_options :: pine_options where
  "no_options =
     \<lparr>opt_filter = None, expand_should_be_running__release = False,
      expand_owns__release = None, expand_owns__device = False\<rparr>"

text \<open>
  Modelled from the spec: \<open>mergePineOptions\<close> of \<open>../util\<close>, which is not among the
  sources. The caller's clauses compose with the defaults: both filters must hold.
\<close>

definition mergePineOptions ::
  "(application_row \<Rightarrow> bool) option \<Rightarrow> pine_options \<Rightarrow> pine_options" where
  "mergePineOptions default_filter options =
     (case default_filter of
        None \<Rightarrow> options
      | Some f \<Rightarrow>
          options\<lparr>opt_filter :=
            (case opt_filter options of
               None \<Rightarrow> Some f
             | Some g \<Rightarrow> Some (\<lambda>r. f r \<and> g r))\<rparr>)"

text \<open>An application as a query returns it, with the expansions that were asked for.\<close>

record application =
  app_id :: int
  app_name :: string
  slug :: string
  should_track_latest_release :: bool
  should_be_running__release :: "release list"
  owns__release :: "release list"
  owns__device :: "device list option"

definition run_release_query :: "release_query \<Rightarrow> release list \<Rightarrow> release list" where
  "run_release_query q rs =
     (let matching = filter (rq_filter q) rs;
          ordered =
            (if rq_orderby_created_at_desc q
             then js_sort (\<lambda>a b. int (created_at b) - int (created_at a)) matching
             else matching)
      in case rq_top q of None \<Rightarrow> ordered | Some n \<Rightarrow> take n ordered)"

definition expand_row :: "world \<Rightarrow> pine_options \<Rightarrow> application_row \<Rightarrow> application" where
  "expand_row w options r =
     \<lparr>app_id = row_id r,
      app_name = row_app_name r,
      slug = row_slug r,
      should_track_latest_release = row_should_track_latest_release r,
      should_be_running__release =
        (if expand_should_be_running__release options
         then filter (\<lambda>x. Some (release_id x) = row_should_be_running__release r) (releases w)
         else []),
      owns__release =
        (case expand_owns__release options of
           None \<Rightarrow> []
         | Some q \<Rightarrow>
             run_release_query q
               (filter (\<lambda>x. belongs_to__application x = row_id r) (releases w))),
      owns__device =
        (if expand_owns__device options
         then Some (filter (\<lambda>d. device_belongs_to__application d = row_id r) (devices w))
         else None)\<rparr>"

definition passes :: "pine_options \<Rightarrow> application_row \<Rightarrow> bool" where
  "passes options r = (case opt_filter options of None \<Rightarrow> True | Some f \<Rightarrow> f r)"

text \<open>
  \<open>pine.get\<close> on \<open>application\<close>: with a key it answers the row of that id or
  \<open>undefined\<close>, without one the list of the rows that pass the filter.
\<close>

definition pine_get_application ::
  "world \<Rightarrow> int \<Rightarrow> pine_options \<Rightarrow> (error + application option) \<times> world" where
  "pine_get_application w n options =
     (let w' = issue (PineGet ''application'') w
      in case fault w (PineGet ''application'') of
           Some e \<Rightarrow> (Inl e, w')
         | None \<Rightarrow>
             (Inr (map_option (expand_row w options)
                    (find (\<lambda>r. row_id r = n \<and> passes options r) (applications w))), w'))"

definition pine_get_applications ::
  "world \<Rightarrow> pine_options \<Rightarrow> (error + application list) \<times> world" where
  "pine_get_applications w options =
     (let w' = issue (PineGet ''application'') w
      in case fault w (PineGet ''application'') of
           Some e \<Rightarrow> (Inl e, w')
         | None \<Rightarrow>
             (Inr (map (expand_row w options) (filter (passes options) (applications w))), w'))"

text \<open>\<open>pine.get\<close> on a resource keyed by slug (\<open>application_type\<close>, \<open>device_type\<close>).\<close>

definition pine_get_by_slug ::
  "world \<Rightarrow> string \<Rightarrow> (string \<times> int) list \<Rightarrow> string \<Rightarrow> (error + int option) \<times> world" where
  "pine_get_by_slug w resource table key =
     (let w' = issue (PineGet resource) w
      in case fault w (PineGet resource) of
           Some e \<Rightarrow> (Inl e, w')
         | None \<Rightarrow> (Inr (map_of table key), w'))"

text \<open>
  \<open>pine.patch\<close> on \<open>application\<close> with a key: the fields of the body are written to the
  row of that id.
\<close>

definition apply_patch :: "patch_body \<Rightarrow> application_row \<Rightarrow> application_row" where
  "apply_patch body r =
     r\<lparr>row_should_be_running__release :=
          (case patch_should_be_running__release body of
             None \<Rightarrow> row_should_be_running__release r
           | Some x \<Rightarrow> Some x),
       row_should_track_latest_release :=
          (case patch_should_track_latest_release body of
             None \<Rightarrow> row_should_track_latest_release r
           | Some b \<Rightarrow> b)\<rparr>"

definition pine_patch_application ::
  "world \<Rightarrow> int \<Rightarrow> patch_body \<Rightarrow> (error + unit) \<times> world" where
  "pine_patch_application w n body =
     (let w' = issue (PinePatch ''application'' n body) w
      in case fault w (PinePatch ''application'' n body) of
           Some e \<Rightarrow> (Inl e, w')
         | None \<Rightarrow>
             (Inr (),
              w'\<lparr>applications :=
                   map (\<lambda>r. if row_id r = n then apply_patch body r else r) (applications w)\<rparr>))"

text \<open>\<open>pine.post\<close> on \<open>application\<close>: the server answers with the row it created.\<close>

definition pine_post_application ::
  "world \<Rightarrow> submit_body \<Rightarrow> (error + application) \<times> world" where
  "pine_post_application w body =
     (let w' = issue (PinePost ''application'') w
      in case fault w (PinePost ''application'') of
           Some e \<Rightarrow> (Inl e, w')
         | None \<Rightarrow>
             (case post_application w body of
                Inl e \<Rightarrow> (Inl e, w')
              | Inr r \<Rightarrow>
                  (Inr (expand_row w no_options r),
                   w'\<lparr>applications := applications w @ [r]\<rparr>)))"

subsection \<open>References\<close>

text \<open>
  Modelled from the spec: \<open>isId\<close> of \<open>../util\<close>, which is not among the sources. A
  reference is an id when it is a number.
\<close>

definition isId :: "ref \<Rightarrow> bool" where
  "isId r = (case r of Num n \<Rightarrow> True | _ \<Rightarrow> False)"

text \<open>
  \<open>String.prototype.toLowerCase\<close> on the ASCII letters; strings here are byte strings.
\<close>

definition lower_char :: "char \<Rightarrow> char" where
  "lower_char c =
     (case map_of (zip ''ABCDEFGHIJKLMNOPQRSTUVWXYZ'' ''abcdefghijklmnopqrstuvwxyz'') c of
        None \<Rightarrow> c
      | Some l \<Rightarrow> l)"

definition toLowerCase :: "string \<Rightarrow> string" where
  "toLowerCase s = map lower_char s"

text \<open>What JavaScript takes for true in \<open>parent ? ... : undefined\<close>.\<close>

definition truthy :: "ref \<Rightarrow> bool" where
  "truthy r = (case r of Null \<Rightarrow> False | Num n \<Rightarrow> n \<noteq> 0 | Str s \<Rightarrow> s \<noteq> [])"

subsection \<open>\<open>get\<close> and \<open>getId\<close>\<close>

definition normalizeApplication :: "world \<Rightarrow> application \<Rightarrow> application" where
  "normalizeApplication w application =
     (case owns__device application of
        None \<Rightarrow> application
      | Some ds \<Rightarrow> application\<lparr>owns__device := Some (map (normalizeDeviceOsVersion w) ds)\<rparr>)"

text \<open>
  \<open>get\<close>: a missing reference is refused before any request; a number is looked up by
  key; a string by the filter \<open>app_name eq ref or slug eq ref.toLowerCase()\<close>.
\<close>

definition get :: "world \<Rightarrow> ref \<Rightarrow> pine_options \<Rightarrow> (error + application) \<times> world" where
  "get w nameOrSlugOrId options =
     (case nameOrSlugOrId of
        Null \<Rightarrow> (Inl (BalenaApplicationNotFound nameOrSlugOrId), w)
      | Num n \<Rightarrow>
          (case pine_get_application w n (mergePineOptions None options) of
             (Inl e, w') \<Rightarrow> (Inl e, w')
           | (Inr None, w') \<Rightarrow> (Inl (BalenaApplicationNotFound nameOrSlugOrId), w')
           | (Inr (Some application), w') \<Rightarrow> (Inr (normalizeApplication w application), w'))
      | Str s \<Rightarrow>
          (case pine_get_applications w
                  (mergePineOptions
                     (Some (\<lambda>r. row_app_name r = s \<or> row_slug r = toLowerCase s)) options) of
             (Inl e, w') \<Rightarrow> (Inl e, w')
           | (Inr apps, w') \<Rightarrow>
               if length apps = 0
               then (Inl (BalenaApplicationNotFound nameOrSlugOrId), w')
               else if length apps > 1
               then (Inl (BalenaAmbiguousApplication nameOrSlugOrId), w')
               else (Inr (normalizeApplication w (hd apps)), w')))"

text \<open>
  \<open>getId\<close>: a reference for which \<open>isId\<close> holds, a number, is the id; any other is
  resolved with \<open>get\<close>.
\<close>

definition getId :: "world \<Rightarrow> ref \<Rightarrow> (error + int) \<times> world" where
  "getId w nameOrSlugOrId =
     (case nameOrSlugOrId of
        Num n \<Rightarrow> (Inr n, w)
      | _ \<Rightarrow>
          (case get w nameOrSlugOrId no_options of
             (Inl e, w') \<Rightarrow> (Inl e, w')
           | (Inr application, w') \<Rightarrow> (Inr (app_id application), w')))"

text \<open>
  \<open>getAppByOwner\<close>: both parts are lowercased and the application is looked up by the
  key \<open>slug = owner/appName\<close>.
\<close>

definition getAppByOwner ::
  "world \<Rightarrow> string \<Rightarrow> string \<Rightarrow> pine_options \<Rightarrow> (error + application) \<times> world" where
  "getAppByOwner w appName owner options =
     (let appName = toLowerCase appName;
          owner = toLowerCase owner;
          w' = issue (PineGet ''application'') w
      in case fault w (PineGet ''application'') of
           Some e \<Rightarrow> (Inl e, w')
         | None \<Rightarrow>
             (case find (\<lambda>r. row_slug r = owner @ ''/'' @ appName \<and> passes options r)
                     (applications w) of
                None \<Rightarrow> (Inl (BalenaApplicationNotFound (Str (owner @ ''/'' @ appName))), w')
              | Some r \<Rightarrow> (Inr (normalizeApplication w (expand_row w options r)), w')))"

subsection \<open>Release tracking\<close>

text \<open>
  Modelled from the spec: \<open>get\<close> of the release model, which is not among the sources.
  It resolves a release by its full hash under the filter it is given and fails when
  there is none.
\<close>

definition releaseModel_get ::
  "world \<Rightarrow> string \<Rightarrow> (release \<Rightarrow> bool) \<Rightarrow> (error + release) \<times> world" where
  "releaseModel_get w commitOrId release_filter =
     (let w' = issue (PineGet ''release'') w
      in case fault w (PineGet ''release'') of
           Some e \<Rightarrow> (Inl e, w')
         | None \<Rightarrow>
             (case filter (\<lambda>r. commit r = commitOrId \<and> release_filter r) (releases w) of
                [] \<Rightarrow> (Inl (BalenaReleaseNotFound commitOrId), w')
              | r # _ \<Rightarrow> (Inr r, w')))"

text \<open>
  The expansion \<open>owns__release\<close> that \<open>isTrackingLatestRelease\<close> and \<open>trackLatestRelease\<close>
  ask for: the most recent release that is final, passes its tests, is not invalidated
  and has the status \<open>success\<close>.
\<close>

definition latest_release_query :: release_query where
  "latest_release_query =
     \<lparr>rq_filter =
        (\<lambda>r. is_final r \<and> is_passing_tests r \<and> \<not> is_invalidated r \<and> status r = ''success''),
      rq_orderby_created_at_desc = True,
      rq_top = Some 1\<rparr>"

definition isTrackingLatestRelease :: "world \<Rightarrow> ref \<Rightarrow> (error + bool) \<times> world" where
  "isTrackingLatestRelease w nameOrSlugOrId =
     (let appOptions =
            \<lparr>opt_filter = None, expand_should_be_running__release = True,
             expand_owns__release = Some latest_release_query, expand_owns__device = False\<rparr>
      in case get w nameOrSlugOrId appOptions of
           (Inl e, w') \<Rightarrow> (Inl e, w')
         | (Inr application, w') \<Rightarrow>
             (case owns__release application of
                [] \<Rightarrow> (Inr (should_track_latest_release application), w')
              | latestRelease # _ \<Rightarrow>
                  (case should_be_running__release application of
                     [] \<Rightarrow> (Inr False, w')
                   | trackedRelease # _ \<Rightarrow>
                       (Inr (should_track_latest_release application
                             \<and> release_id trackedRelease = release_id latestRelease), w'))))"

definition pinToRelease :: "world \<Rightarrow> ref \<Rightarrow> string \<Rightarrow> (error + unit) \<times> world" where
  "pinToRelease w nameOrSlugOrId fullReleaseHash =
     (case getId w nameOrSlugOrId of
        (Inl e, w1) \<Rightarrow> (Inl e, w1)
      | (Inr applicationId, w1) \<Rightarrow>
          (case releaseModel_get w1 fullReleaseHash
                  (\<lambda>r. belongs_to__application r = applicationId \<and> status r = ''success'') of
             (Inl e, w2) \<Rightarrow> (Inl e, w2)
           | (Inr release, w2) \<Rightarrow>
               pine_patch_application w2 applicationId
                 \<lparr>patch_should_be_running__release = Some (release_id release),
                  patch_should_track_latest_release = Some False\<rparr>))"

definition trackLatestRelease :: "world \<Rightarrow> ref \<Rightarrow> (error + unit) \<times> world" where
  "trackLatestRelease w nameOrSlugOrId =
     (let appOptions =
            \<lparr>opt_filter = None, expand_should_be_running__release = False,
             expand_owns__release = Some latest_release_query, expand_owns__device = False\<rparr>
      in case get w nameOrSlugOrId appOptions of
           (Inl e, w') \<Rightarrow> (Inl e, w')
         | (Inr application, w') \<Rightarrow>
             (let body =
                    \<lparr>patch_should_be_running__release = None,
                     patch_should_track_latest_release = Some True\<rparr>;
                  body =
                    (case owns__release application of
                       [] \<Rightarrow> body
                     | latestRelease # _ \<Rightarrow>
                         body\<lparr>patch_should_be_running__release :=
                                Some (release_id latestRelease)\<rparr>)
              in pine_patch_application w' (app_id application) body))"

subsection \<open>\<open>create\<close>\<close>

record create_params =
  name :: string
  applicationType :: "string option"
  deviceType :: string
  parent :: ref
  organization :: ref

text \<open>
  The lookups of \<open>create\<close> run in parallel and \<open>Promise.all\<close> rejects with the first
  rejection that happens. Which lookup settles first is not in the hands of the model:
  it is given as the order in which the lookups settle. Lookups the order leaves out
  settle after those it names, in the order of the array.
\<close>

datatype lookup = DeviceTypeLookup | ApplicationTypeLookup | ParentLookup | OrganizationLookup

fun first_rejection :: "lookup list \<Rightarrow> (lookup \<Rightarrow> error option) \<Rightarrow> error option" where
  "first_rejection [] rejected = None"
| "first_rejection (l # ls) rejected =
     (case rejected l of Some e \<Rightarrow> Some e | None \<Rightarrow> first_rejection ls rejected)"

definition Promise_all :: "lookup list \<Rightarrow> (lookup \<Rightarrow> error option) \<Rightarrow> error option" where
  "Promise_all settle_order rejected =
     first_rejection
       (settle_order @ [DeviceTypeLookup, ApplicationTypeLookup, ParentLookup, OrganizationLookup])
       rejected"

definition applicationTypePromise ::
  "world \<Rightarrow> create_params \<Rightarrow> (error + int) option \<times> world" where
  "applicationTypePromise w params =
     (case applicationType params of
        None \<Rightarrow> (None, w)
      | Some t \<Rightarrow>
          if t = [] then (None, w)
          else (case pine_get_by_slug w ''application_type'' (application_types w) t of
                  (Inl e, w') \<Rightarrow> (Some (Inl e), w')
                | (Inr None, w') \<Rightarrow> (Some (Inl (Error (''Invalid application type: '' @ t))), w')
                | (Inr (Some i), w') \<Rightarrow> (Some (Inr i), w')))"

definition parentAppPromise ::
  "world \<Rightarrow> create_params \<Rightarrow> (error + application) option \<times> world" where
  "parentAppPromise w params =
     (if truthy (parent params)
      then (case get w (parent params) no_options of (r, w') \<Rightarrow> (Some r, w'))
      else (None, w))"

definition deviceTypeIdPromise :: "world \<Rightarrow> create_params \<Rightarrow> (error + int) \<times> world" where
  "deviceTypeIdPromise w params =
     (case getManifestBySlug w (deviceType params) of
        Inl e \<Rightarrow> (Inl e, w)
      | Inr None \<Rightarrow> (Inl (BalenaInvalidDeviceType (deviceType params)), w)
      | Inr (Some deviceManifest) \<Rightarrow>
          if state deviceManifest = ''DISCONTINUED''
          then (Inl (BalenaDiscontinuedDeviceType (deviceType params)), w)
          else (case pine_get_by_slug w ''device_type'' (device_types w)
                       (manifest_slug deviceManifest) of
                  (Inl e, w') \<Rightarrow> (Inl e, w')
                | (Inr None, w') \<Rightarrow> (Inl (BalenaInvalidDeviceType (deviceType params)), w')
                | (Inr (Some i), w') \<Rightarrow> (Inr i, w')))"

definition organizationPromise :: "world \<Rightarrow> create_params \<Rightarrow> (error + int) \<times> world" where
  "organizationPromise w params =
     (let w' = issue (PineGet ''organization'') w
      in case fault w (PineGet ''organization'') of
           Some e \<Rightarrow> (Inl e, w')
         | None \<Rightarrow>
             (case find (\<lambda>org. if isId (organization params)
                               then Num (org_id org) = organization params
                               else Str (handle org) = organization params)
                     (organizations w) of
                None \<Rightarrow> (Inl (BalenaOrganizationNotFound (organization params)), w')
              | Some org \<Rightarrow> (Inr (org_id org), w')))"

text \<open>
  \<open>create\<close>. The requests of the lookups are issued at once, the one on \<open>device_type\<close>
  after the manifest is there; the creation request follows when all four have
  resolved. A field of the body is set only when its value counts as true.
\<close>

definition create ::
  "world \<Rightarrow> lookup list \<Rightarrow> create_params \<Rightarrow> (error + application) \<times> world" where
  "create w settle_order params =
     (if organization params = Null
      then (Inl (BalenaInvalidParameterError ''organization'' (organization params)), w)
      else
        (case applicationTypePromise w params of (applicationTypeId, w1) \<Rightarrow>
         case parentAppPromise w1 params of (parentApplication, w2) \<Rightarrow>
         case organizationPromise w2 params of (organizationId, w3) \<Rightarrow>
         case deviceTypeIdPromise w3 params of (deviceTypeId, w4) \<Rightarrow>
           (case Promise_all settle_order
                   (\<lambda>l. case l of
                      DeviceTypeLookup \<Rightarrow>
                        (case deviceTypeId of Inl e \<Rightarrow> Some e | Inr _ \<Rightarrow> None)
                    | ApplicationTypeLookup \<Rightarrow>
                        (case applicationTypeId of Some (Inl e) \<Rightarrow> Some e | _ \<Rightarrow> None)
                    | ParentLookup \<Rightarrow>
                        (case parentApplication of Some (Inl e) \<Rightarrow> Some e | _ \<Rightarrow> None)
                    | OrganizationLookup \<Rightarrow>
                        (case organizationId of Inl e \<Rightarrow> Some e | Inr _ \<Rightarrow> None)) of
              Some e \<Rightarrow> (Inl e, w4)
            | None \<Rightarrow>
                (case deviceTypeId of
                   Inl e \<Rightarrow> (Inl e, w4)
                 | Inr dt \<Rightarrow>
                     (case organizationId of
                        Inl e \<Rightarrow> (Inl e, w4)
                      | Inr org \<Rightarrow>
                          pine_post_application w4
                            \<lparr>body_app_name = name params,
                             body_is_for__device_type = dt,
                             body_depends_on__application =
                               (case parentApplication of
                                  Some (Inr p) \<Rightarrow> Some (app_id p)
                                | _ \<Rightarrow> None),
                             body_application_type =
                               (case applicationTypeId of
                                  Some (Inr t) \<Rightarrow> if t \<noteq> 0 then Some t else None
                                | _ \<Rightarrow> None),
                             body_organization = (if org \<noteq> 0 then Some org else None)\<rparr>)))))"

text \<open>The lookups of \<open>create\<close> that fail, with their errors.\<close>

definition lookup_error :: "world \<Rightarrow> create_params \<Rightarrow> lookup \<Rightarrow> error option" where
  "lookup_error w params l =
     (case l of
        DeviceTypeLookup \<Rightarrow>
          (case fst (deviceTypeIdPromise w params) of Inl e \<Rightarrow> Some e | Inr _ \<Rightarrow> None)
      | ApplicationTypeLookup \<Rightarrow>
          (case fst (applicationTypePromise w params) of Some (Inl e) \<Rightarrow> Some e | _ \<Rightarrow> None)
      | ParentLookup \<Rightarrow>
          (case fst (parentAppPromise w params) of Some (Inl e) \<Rightarrow> Some e | _ \<Rightarrow> None)
      | OrganizationLookup \<Rightarrow>
          (case fst (organizationPromise w params) of Inl e \<Rightarrow> Some e | Inr _ \<Rightarrow> None))"

text \<open>The releases of an application that qualify as its latest release.\<close>

definition qualifying_releases :: "world \<Rightarrow> int \<Rightarrow> release list" where
  "qualifying_releases w n =
     filter (\<lambda>r. is_final r \<and> is_passing_tests r \<and> \<not> is_invalidated r \<and> status r = ''success'')
       (filter (\<lambda>r. belongs_to__application r = n) (releases w))"

text \<open>The options with which \<open>isTrackingLatestRelease\<close> fetches the application.\<close>

definition tracking_options :: pine_options where
  "tracking_options =
     \<lparr>opt_filter = None, expand_should_be_running__release = True,
      expand_owns__release = Some latest_release_query, expand_owns__device = False\<rparr>"

text \<open>The options with which \<open>trackLatestRelease\<close> fetches the application.\<close>

definition track_options :: pine_options where
  "track_options =
     \<lparr>opt_filter = None, expand_should_be_running__release = False,
      expand_owns__release = Some latest_release_query, expand_owns__device = False\<rparr>"

section \<open>The application model of the older SDK (\<open>build/models/application.js\<close>)\<close>

text \<open>
  The same operations as the older SDK has them: a string is looked up by
  \<open>app_name\<close> alone, and \<open>create\<close> resolves the slug of the device type and the parent.
  \<open>getDeviceSlug\<close> of its device model and the server's handling of its creation
  request are parameters.
\<close>

record resin_deps =
  getDeviceSlug :: "string \<Rightarrow> error + string option"
  resin_post_application :: "string \<Rightarrow> string \<Rightarrow> int option \<Rightarrow> error + application_row"

definition get_resin :: "world \<Rightarrow> ref \<Rightarrow> pine_options \<Rightarrow> (error + application) \<times> world" where
  "get_resin w nameOrId options =
     (case nameOrId of
        Null \<Rightarrow> (Inl (ResinApplicationNotFound nameOrId), w)
      | Num n \<Rightarrow>
          (case pine_get_application w n (mergePineOptions None options) of
             (Inl e, w') \<Rightarrow> (Inl e, w')
           | (Inr None, w') \<Rightarrow> (Inl (ResinApplicationNotFound nameOrId), w')
           | (Inr (Some application), w') \<Rightarrow> (Inr (normalizeApplication w application), w'))
      | Str s \<Rightarrow>
          (case pine_get_applications w
                  (mergePineOptions (Some (\<lambda>r. row_app_name r = s)) options) of
             (Inl e, w') \<Rightarrow> (Inl e, w')
           | (Inr apps, w') \<Rightarrow>
               if apps = []
               then (Inl (ResinApplicationNotFound nameOrId), w')
               else if length apps > 1
               then (Inl (ResinAmbiguousApplication nameOrId), w')
               else (Inr (normalizeApplication w (hd apps)), w')))"

definition getId_resin :: "world \<Rightarrow> ref \<Rightarrow> (error + int) \<times> world" where
  "getId_resin w nameOrId =
     (case nameOrId of
        Num n \<Rightarrow> (Inr n, w)
      | _ \<Rightarrow>
          (case get_resin w nameOrId no_options of
             (Inl e, w') \<Rightarrow> (Inl e, w')
           | (Inr application, w') \<Rightarrow> (Inr (app_id application), w')))"

definition deviceSlugPromise :: "resin_deps \<Rightarrow> string \<Rightarrow> error + string" where
  "deviceSlugPromise deps device_type =
     (case getDeviceSlug deps device_type of
        Inl e \<Rightarrow> Inl e
      | Inr None \<Rightarrow> Inl (ResinInvalidDeviceType device_type)
      | Inr (Some deviceSlug) \<Rightarrow> Inr deviceSlug)"

definition parentAppPromise_resin ::
  "world \<Rightarrow> ref \<Rightarrow> (error + application) option \<times> world" where
  "parentAppPromise_resin w parentNameOrId =
     (if truthy parentNameOrId
      then (case get_resin w parentNameOrId no_options of (r, w') \<Rightarrow> (Some r, w'))
      else (None, w))"

definition create_resin ::
  "resin_deps \<Rightarrow> world \<Rightarrow> lookup list \<Rightarrow> string \<Rightarrow> string \<Rightarrow> ref
     \<Rightarrow> (error + application) \<times> world" where
  "create_resin deps w settle_order app device_type parentNameOrId =
     (case parentAppPromise_resin w parentNameOrId of (parentApplication, w1) \<Rightarrow>
        (case Promise_all settle_order
                (\<lambda>l. case l of
                   DeviceTypeLookup \<Rightarrow>
                     (case deviceSlugPromise deps device_type of
                        Inl e \<Rightarrow> Some e | Inr _ \<Rightarrow> None)
                 | ParentLookup \<Rightarrow>
                     (case parentApplication of Some (Inl e) \<Rightarrow> Some e | _ \<Rightarrow> None)
                 | _ \<Rightarrow> None) of
           Some e \<Rightarrow> (Inl e, w1)
         | None \<Rightarrow>
             (case deviceSlugPromise deps device_type of
                Inl e \<Rightarrow> (Inl e, w1)
              | Inr deviceSlug \<Rightarrow>
                  (let w2 = issue (PinePost ''application'') w1
                   in case fault w1 (PinePost ''application'') of
                        Some e \<Rightarrow> (Inl e, w2)
                      | None \<Rightarrow>
                          (case resin_post_application deps app deviceSlug
                                  (case parentApplication of
                                     Some (Inr p) \<Rightarrow> Some (app_id p)
                                   | _ \<Rightarrow> None) of
                             Inl e \<Rightarrow> (Inl e, w2)
                           | Inr r \<Rightarrow>
                               (Inr (expand_row w no_options r),
                                w2\<lparr>applications := applications w @ [r]\<rparr>))))))"

text \<open>The lookups of the older \<open>create\<close> that fail, with their errors.\<close>

definition lookup_error_resin ::
  "resin_deps \<Rightarrow> world \<Rightarrow> string \<Rightarrow> ref \<Rightarrow> lookup \<Rightarrow> error option" where
  "lookup_error_resin deps w device_type parentNameOrId l =
     (case l of
        DeviceTypeLookup \<Rightarrow>
          (case deviceSlugPromise deps device_type of Inl e \<Rightarrow> Some e | Inr _ \<Rightarrow> None)
      | ParentLookup \<Rightarrow>
          (case fst (parentAppPromise_resin w parentNameOrId) of
             Some (Inl e) \<Rightarrow> Some e
           | _ \<Rightarrow> None)
      | _ \<Rightarrow> None)"

section \<open>A small fleet\<close>

text \<open>
  Four applications of the organization \<open>acme\<close> and of another owner; two share the
  name \<open>Twin\<close>. \<open>MyApp\<close> has three releases, the last of which failed, and runs the first.
  The device type \<open>old-board\<close> is discontinued.
\<close>

definition example_world :: world where
  "example_world =
     \<lparr>applications =
        [\<lparr>row_id = 1, row_app_name = ''MyApp'', row_slug = ''acme/myapp'',
          row_should_track_latest_release = True, row_should_be_running__release = Some 10\<rparr>,
         \<lparr>row_id = 2, row_app_name = ''Twin'', row_slug = ''acme/twin'',
          row_should_track_latest_release = True, row_should_be_running__release = None\<rparr>,
         \<lparr>row_id = 3, row_app_name = ''Twin'', row_slug = ''other/twin'',
          row_should_track_latest_release = True, row_should_be_running__release = None\<rparr>,
         \<lparr>row_id = 4, row_app_name = ''Fresh'', row_slug = ''acme/fresh'',
          row_should_track_latest_release = False, row_should_be_running__release = Some 10\<rparr>],
      releases =
        [\<lparr>release_id = 10, commit = ''aaa'', belongs_to__application = 1, is_final = True,
          is_passing_tests = True, is_invalidated = False, status = ''success'',
          created_at = 100\<rparr>,
         \<lparr>release_id = 11, commit = ''bbb'', belongs_to__application = 1, is_final = True,
          is_passing_tests = True, is_invalidated = False, status = ''success'',
          created_at = 200\<rparr>,
         \<lparr>release_id = 12, commit = ''ccc'', belongs_to__application = 1, is_final = True,
          is_passing_tests = True, is_invalidated = False, status = ''failed'',
          created_at = 300\<rparr>],
      devices =
        [\<lparr>device_id = 7, device_belongs_to__application = 1, os_version = ''Resin OS 2.0.0''\<rparr>],
      application_types = [(''microservices'', 5)],
      device_types = [(''raspberry-pi'', 20), (''old-board'', 21)],
      organizations = [\<lparr>org_id = 30, handle = ''acme''\<rparr>],
      getManifestBySlug =
        (\<lambda>s. if s = ''raspberry-pi''
              then Inr (Some \<lparr>manifest_slug = ''raspberry-pi'', state = ''RELEASED''\<rparr>)
              else if s = ''old-board''
              then Inr (Some \<lparr>manifest_slug = ''old-board'', state = ''DISCONTINUED''\<rparr>)
              else Inr None),
      normalizeDeviceOsVersion = (\<lambda>d. d),
      post_application =
        (\<lambda>b. Inr \<lparr>row_id = 100, row_app_name = body_app_name b,
                  row_slug = ''acme/'' @ toLowerCase (body_app_name b),
                  row_should_track_latest_release = True,
                  row_should_be_running__release = None\<rparr>),
      fault = (\<lambda>r. None),
      requests = []\<rparr>"

text \<open>The same fleet with one more application, whose name is spelled like a slug.\<close>

definition collision_world :: world where
  "collision_world =
     example_world\<lparr>applications :=
       applications example_world @
         [\<lparr>row_id = 5, row_app_name = ''Acme/MyApp'', row_slug = ''acme/other'',
           row_should_track_latest_release = True,
           row_should_be_running__release = None\<rparr>]\<rparr>"

definition example_resin_deps :: resin_deps where
  "example_resin_deps =
     \<lparr>getDeviceSlug =
        (\<lambda>s. if s = ''raspberry-pi'' \<or> s = ''old-board'' then Inr (Some s) else Inr None),
      resin_post_application =
        (\<lambda>a d p. Inr \<lparr>row_id = 100, row_app_name = a, row_slug = toLowerCase a,
                      row_should_track_latest_release = True,
                      row_should_be_running__release = None\<rparr>)\<rparr>"

section \<open>Properties of the matcher\<close>

lemma nullable_lang: "nullable r \<longleftrightarrow> [] \<in> lang r"
  by (induction r) (auto simp: conc_def intro: star.star_nil)

lemma star_cons_split:
  assumes "w \<in> star A" and "w = c # x"
  shows "\<exists>u v. x = u @ v \<and> c # u \<in> A \<and> v \<in> star A"
  using assms
proof (induction arbitrary: x rule: star.induct)
  case star_nil
  then show ?case by simp
next
  case (star_app u v)
  show ?case
  proof (cases u)
    case Nil
    with star_app show ?thesis by simp
  next
    case (Cons a u')
    with star_app.prems have "a = c" and "x = u' @ v" by simp_all
    with Cons star_app.hyps show ?thesis by blast
  qed
qed

lemma conc_cons_iff:
  "c # w \<in> conc A B \<longleftrightarrow>
     (\<exists>u v. w = u @ v \<and> c # u \<in> A \<and> v \<in> B) \<or> ([] \<in> A \<and> c # w \<in> B)"
  unfolding conc_def
  by (auto simp: Cons_eq_append_conv)

lemma lang_deriv: "w \<in> lang (deriv c r) \<longleftrightarrow> c # w \<in> lang r"
proof (induction r arbitrary: w)
  case (Seq r s)
  then show ?case
    by (auto simp: conc_cons_iff nullable_lang) (auto simp: conc_def)
next
  case (Star r)
  show ?case
  proof
    assume "w \<in> lang (deriv c (Star r))"
    then obtain u v where "w = u @ v" "c # u \<in> lang r" "v \<in> star (lang r)"
      using Star by (auto simp: conc_def)
    then show "c # w \<in> lang (Star r)"
      using star.star_app [of "c # u" "lang r" v] by simp
  next
    assume "c # w \<in> lang (Star r)"
    then obtain u v where "w = u @ v" "c # u \<in> lang r" "v \<in> star (lang r)"
      using star_cons_split [of "c # w" "lang r" c w] by auto
    then show "w \<in> lang (deriv c (Star r))"
      using Star by (auto simp: conc_def)
  qed
qed auto

lemma matches_lang: "matches r s \<longleftrightarrow> s \<in> lang r"
  unfolding matches_def
  by (induction s arbitrary: r) (simp_all add: nullable_lang lang_deriv)

lemma star_AnyChar: "s \<in> star (lang AnyChar)"
proof (induction s)
  case Nil
  show ?case by (rule star.star_nil)
next
  case (Cons c s)
  have "[c] \<in> lang AnyChar" by (simp add: AnyChar_def)
  from star.star_app [OF this Cons] show ?case by simp
qed

lemma regex_test_iff:
  "regex_test r s \<longleftrightarrow> (\<exists>u w x. s = u @ w @ x \<and> w \<in> lang r)"
  unfolding regex_test_def matches_lang
  by (auto simp: conc_def star_AnyChar)

lemma lang_Plus_digit: "w \<in> lang (Plus Digit) \<Longrightarrow> w \<noteq> [] \<and> is_digit (hd w)"
  by (auto simp: Plus_def Digit_def conc_def)

lemma RESINOS_VERSION_REGEX_eq:
  "RESINOS_VERSION_REGEX = Seq (Opt (Chr CHR ''v'')) strict_version_pattern"
  by (simp add: RESINOS_VERSION_REGEX_def strict_version_pattern_def)

lemma strict_has_digit: "w \<in> lang strict_version_pattern \<Longrightarrow> \<exists>c \<in> set w. is_digit c"
proof -
  assume "w \<in> lang strict_version_pattern"
  then obtain a b where w: "w = a @ b" and a: "a \<in> lang (Plus Digit)"
    by (auto simp: strict_version_pattern_def conc_def)
  from lang_Plus_digit [OF a] have "hd a \<in> set a" "is_digit (hd a)" by simp_all
  with w show ?thesis by auto
qed

lemma RESINOS_has_digit:
  "w \<in> lang RESINOS_VERSION_REGEX \<Longrightarrow> \<exists>c \<in> set w. is_digit c"
proof -
  assume "w \<in> lang RESINOS_VERSION_REGEX"
  then obtain a b where w: "w = a @ b" and b: "b \<in> lang strict_version_pattern"
    unfolding RESINOS_VERSION_REGEX_eq by (auto simp: conc_def)
  from strict_has_digit [OF b] w show ?thesis by auto
qed

lemma conforms_test: "conforms s \<Longrightarrow> regex_test RESINOS_VERSION_REGEX s"
proof -
  assume "conforms s"
  then have "s \<in> lang strict_version_pattern" by (simp add: conforms_def matches_lang)
  then have "s \<in> lang RESINOS_VERSION_REGEX"
    unfolding RESINOS_VERSION_REGEX_eq by (auto simp: conc_def Opt_def)
  then have "s = [] @ s @ [] \<and> s \<in> lang RESINOS_VERSION_REGEX" by simp
  then show ?thesis unfolding regex_test_iff by blast
qed

lemma no_digit_no_test:
  "\<forall>c \<in> set s. \<not> is_digit c \<Longrightarrow> \<not> regex_test RESINOS_VERSION_REGEX s"
  unfolding regex_test_iff
  by (auto dest!: RESINOS_has_digit)


section \<open>Version strings are checked against the pattern\<close>

text \<open>
  C9 (counterexample). The claim has every string that does not conform to the strict
  pattern refused. The guard for \<open>'latest'\<close> comes first in \<open>normalizeVersion\<close>: the token
  does not conform and is returned as it is.
\<close>

theorem normalizeVersion_latest_counterexample:
  "\<not> conforms ''latest'' \<and> normalizeVersion ''latest'' = Inr ''latest''"
  by (simp add: normalizeVersion_def conforms_def matches_def strict_version_pattern_def
      Opt_def Plus_def Chr_def Digit_def Dot_def is_digit_def)

text \<open>
  C9 (amended). \<open>normalizeVersion\<close> is a pure function: it returns or throws without any
  request. The empty string is refused with "Invalid version", \<open>'latest'\<close> is returned
  unchanged. For every other string one leading \<open>v\<close> is dropped; when the rest conforms
  to the strict pattern \<open>major.minor.patch[.revN][-/+suffix]\<close> the rest is returned, and
  when no part of the rest matches the pattern the call fails with the format error
  "Invalid semver version". So \<open>normalizeVersion('v2.0.0')\<close> is \<open>'2.0.0'\<close> and
  \<open>normalizeVersion('not-a-version')\<close> fails with the format error.
\<close>

theorem normalizeVersion_validates:
  "normalizeVersion [] = Inl (Error ''Invalid version: '')
   \<and> normalizeVersion ''latest'' = Inr ''latest''
   \<and> (v \<noteq> [] \<and> v \<noteq> ''latest'' \<and> conforms (if hd v = CHR ''v'' then tl v else v)
        \<longrightarrow> normalizeVersion v = Inr (if hd v = CHR ''v'' then tl v else v))
   \<and> (v \<noteq> [] \<and> v \<noteq> ''latest''
        \<and> (\<forall>u w x. (if hd v = CHR ''v'' then tl v else v) = u @ w @ x
              \<longrightarrow> \<not> matches RESINOS_VERSION_REGEX w)
        \<longrightarrow> normalizeVersion v = Inl (Error (''Invalid semver version: '' @ v)))
   \<and> normalizeVersion ''v2.0.0'' = Inr ''2.0.0''
   \<and> normalizeVersion ''not-a-version'' = Inl (Error ''Invalid semver version: not-a-version'')"
proof -
  let ?r = "if hd v = CHR ''v'' then tl v else v"
  have empty: "normalizeVersion [] = Inl (Error ''Invalid version: '')"
    by (simp add: normalizeVersion_def)
  have latest: "normalizeVersion ''latest'' = Inr ''latest''"
    by (simp add: normalizeVersion_def)
  have accept: "v \<noteq> [] \<and> v \<noteq> ''latest'' \<and> conforms ?r \<longrightarrow> normalizeVersion v = Inr ?r"
    using conforms_test [of ?r] by (simp add: normalizeVersion_def Let_def)
  have refuse: "v \<noteq> [] \<and> v \<noteq> ''latest''
        \<and> (\<forall>u w x. ?r = u @ w @ x \<longrightarrow> \<not> matches RESINOS_VERSION_REGEX w)
        \<longrightarrow> normalizeVersion v = Inl (Error (''Invalid semver version: '' @ v))"
  proof (intro impI, elim conjE)
    assume v: "v \<noteq> []" "v \<noteq> ''latest''"
      and none: "\<forall>u w x. ?r = u @ w @ x \<longrightarrow> \<not> matches RESINOS_VERSION_REGEX w"
    from none have "\<not> regex_test RESINOS_VERSION_REGEX ?r"
      unfolding regex_test_iff matches_lang by blast
    with v show "normalizeVersion v = Inl (Error (''Invalid semver version: '' @ v))"
      by (simp add: normalizeVersion_def Let_def)
  qed
  have ex1: "normalizeVersion ''v2.0.0'' = Inr ''2.0.0''"
    by (simp add: normalizeVersion_def regex_test_def matches_def RESINOS_VERSION_REGEX_def
        Opt_def Plus_def Chr_def Digit_def Dot_def AnyChar_def is_digit_def)
  have "\<not> regex_test RESINOS_VERSION_REGEX ''not-a-version''"
    by (rule no_digit_no_test) (simp add: is_digit_def)
  then have ex2: "normalizeVersion ''not-a-version''
      = Inl (Error ''Invalid semver version: not-a-version'')"
    by (simp add: normalizeVersion_def)
  from empty latest accept refuse ex1 ex2 show ?thesis by blast
qed

text \<open>
  The theorem at \<open>'v2.0.0+rev1'\<close>, which conforms once the \<open>v\<close> is dropped, and at
  \<open>'vnext'\<close>, no part of which is a version.
\<close>

theorem normalizeVersion_validates_witness:
  "conforms ''2.0.0+rev1'' \<and> normalizeVersion ''v2.0.0+rev1'' = Inr ''2.0.0+rev1''
   \<and> \<not> regex_test RESINOS_VERSION_REGEX ''next''
   \<and> normalizeVersion ''vnext'' = Inl (Error ''Invalid semver version: vnext'')"
proof -
  have c: "conforms ''2.0.0+rev1''"
    by (simp add: conforms_def matches_def strict_version_pattern_def
        Opt_def Plus_def Chr_def Digit_def Dot_def is_digit_def)
  have t: "\<not> regex_test RESINOS_VERSION_REGEX ''next''"
    by (rule no_digit_no_test) (simp add: is_digit_def)
  then have n: "\<forall>u w x. ''next'' = u @ w @ x \<longrightarrow> \<not> matches RESINOS_VERSION_REGEX w"
    unfolding regex_test_iff matches_lang by blast
  from c t n normalizeVersion_validates [of "''v2.0.0+rev1''"]
    normalizeVersion_validates [of "''vnext''"]
  show ?thesis by simp
qed

section \<open>Sorting with a comparator\<close>

lemma js_insert_mset: "mset (js_insert cmp x xs) = add_mset x (mset xs)"
  by (induction xs) simp_all

lemma js_sort_mset: "mset (js_sort cmp xs) = mset xs"
  unfolding js_sort_def by (induction xs) (simp_all add: js_insert_mset)

lemma js_insert_set: "set (js_insert cmp x xs) = insert x (set xs)"
  by (induction xs) auto

lemma js_insert_sorted:
  assumes total: "\<forall>a b. cmp a b \<le> 0 \<or> cmp b a \<le> 0"
    and trans: "\<forall>a b c. cmp a b \<le> 0 \<and> cmp b c \<le> 0 \<longrightarrow> cmp a c \<le> 0"
    and sorted: "sorted_wrt (\<lambda>a b. cmp a b \<le> 0) xs"
  shows "sorted_wrt (\<lambda>a b. cmp a b \<le> 0) (js_insert cmp x xs)"
  using sorted
proof (induction xs)
  case Nil
  then show ?case by simp
next
  case (Cons y ys)
  show ?case
  proof (cases "cmp x y \<le> 0")
    case True
    have "\<forall>z \<in> set ys. cmp x z \<le> 0"
    proof
      fix z assume "z \<in> set ys"
      with Cons.prems have "cmp y z \<le> 0" by simp
      with True trans show "cmp x z \<le> 0" by blast
    qed
    with True Cons.prems show ?thesis by simp
  next
    case False
    with total have "cmp y x \<le> 0" by blast
    with False Cons show ?thesis by (auto simp: js_insert_set)
  qed
qed

lemma js_sort_sorted:
  assumes "\<forall>a b. cmp a b \<le> 0 \<or> cmp b a \<le> 0"
    and "\<forall>a b c. cmp a b \<le> 0 \<and> cmp b c \<le> 0 \<longrightarrow> cmp a c \<le> 0"
  shows "sorted_wrt (\<lambda>a b. cmp a b \<le> 0) (js_sort cmp xs)"
  unfolding js_sort_def
  by (induction xs) (simp_all add: js_insert_sorted [OF assms])

lemma model_rcompare_le:
  "model_rcompare a b \<le> 0 \<longleftrightarrow> precedence_key b \<le> precedence_key a"
  by (auto simp: model_rcompare_def)

lemma model_rcompare_total: "\<forall>a b. model_rcompare a b \<le> 0 \<or> model_rcompare b a \<le> 0"
  unfolding model_rcompare_le by (simp add: linear)

lemma model_rcompare_trans:
  "\<forall>a b c. model_rcompare a b \<le> 0 \<and> model_rcompare b c \<le> 0 \<longrightarrow> model_rcompare a c \<le> 0"
  unfolding model_rcompare_le by auto

lemmas semver_model_simps =
  example_os_deps_def model_semver_def model_maxSatisfying_def model_prerelease_def
  model_rcompare_def precedence_key_def version_core_def prerelease_components_def
  component_key_def number_of_def digit_value_def is_digit_def
  model_isDevelopmentVersion_def regex_test_def matches_def Chr_def AnyChar_def

section \<open>The supported versions of a device type\<close>

text \<open>
  C4 (counterexample). The claim has \<open>latest\<close> equal to the first element of the sorted
  list. \<open>postProcess\<close> takes \<open>latest\<close> from the body of the answer and never compares it
  with the list: when the image maker lists \<open>2.0.0\<close> and \<open>2.1.0\<close> and reports \<open>2.0.0\<close> as
  latest, the result has \<open>2.1.0\<close> first and \<open>2.0.0\<close> as \<open>latest\<close>.
\<close>

theorem getSupportedVersions_latest_counterexample:
  "getSupportedVersions
     (example_os_deps (\<lambda>v r. False)
        \<lparr>body_versions = [''2.0.0'', ''2.1.0''], body_latest = Some ''2.0.0''\<rparr>)
     ''raspberry-pi''
   = Inr \<lparr>versions = [''2.1.0'', ''2.0.0''], recommended = Some ''2.1.0'',
          latest = Some ''2.0.0'', default_version = Some ''2.1.0''\<rparr>
   \<and> Some ''2.0.0'' \<noteq> Some (hd [''2.1.0'', ''2.0.0''])"
  by (simp add: getSupportedVersions_def isValidDeviceType_def getOsVersions_def
      postProcess_def Let_def js_sort_def semver_model_simps)

text \<open>
  C4 (amended). For every device type of the catalog and every body the image maker
  answers the versions request with, \<open>getSupportedVersions\<close> returns a result whose list
  is the fetched list sorted descending by the library's precedence (a comparator that
  is a total preorder), whose \<open>latest\<close> is the \<open>latest\<close> of the fetched body, passed on as
  it is, whose \<open>recommended\<close> is the first element of the sorted list after excluding
  pre-release and development-tagged versions (\<open>null\<close> if none remain or that element is
  the empty string), and whose \<open>default\<close> is \<open>recommended\<close> when that is not \<open>null\<close> and
  \<open>latest\<close> otherwise.
\<close>

theorem getSupportedVersions_result:
  assumes total: "\<forall>a b. rcompare (semver deps) a b \<le> 0 \<or> rcompare (semver deps) b a \<le> 0"
    and trans: "\<forall>a b c. rcompare (semver deps) a b \<le> 0 \<and> rcompare (semver deps) b c \<le> 0
                  \<longrightarrow> rcompare (semver deps) a c \<le> 0"
    and types: "getDeviceTypes deps = Inr types"
    and valid: "findBySlug deps types slug_of_type \<noteq> None"
    and body: "imgMakerRequest deps (''/image/'' @ slug_of_type @ ''/versions'') = Inr body"
  shows "\<exists>r. getSupportedVersions deps slug_of_type = Inr r
    \<and> sorted_wrt (\<lambda>a b. rcompare (semver deps) a b \<le> 0) (versions r)
    \<and> mset (versions r) = mset (body_versions body)
    \<and> latest r = body_latest body
    \<and> recommended r =
        (case filter (\<lambda>v. prerelease (semver deps) v = None \<and> \<not> isDevelopmentVersion deps v)
                (versions r) of
           [] \<Rightarrow> None
         | v # _ \<Rightarrow> if v = [] then None else Some v)
    \<and> default_version r = (case recommended r of Some x \<Rightarrow> Some x | None \<Rightarrow> latest r)"
proof -
  let ?r = "postProcess deps body"
  have ret: "getSupportedVersions deps slug_of_type = Inr ?r"
    using types valid body
    by (simp add: getSupportedVersions_def isValidDeviceType_def getOsVersions_def)
  have v: "versions ?r = js_sort (rcompare (semver deps)) (body_versions body)"
    by (simp add: postProcess_def Let_def)
  have sorted: "sorted_wrt (\<lambda>a b. rcompare (semver deps) a b \<le> 0) (versions ?r)"
    unfolding v by (rule js_sort_sorted [OF total trans])
  have perm: "mset (versions ?r) = mset (body_versions body)"
    unfolding v by (rule js_sort_mset)
  have latest: "latest ?r = body_latest body"
    by (simp add: postProcess_def Let_def)
  have rec: "recommended ?r =
        (case filter (\<lambda>v. prerelease (semver deps) v = None \<and> \<not> isDevelopmentVersion deps v)
                (versions ?r) of
           [] \<Rightarrow> None
         | v # _ \<Rightarrow> if v = [] then None else Some v)"
    by (simp add: postProcess_def Let_def)
  have dflt: "default_version ?r = (case recommended ?r of Some x \<Rightarrow> Some x | None \<Rightarrow> latest ?r)"
    by (simp add: postProcess_def Let_def split: option.split)
  from ret sorted perm latest rec dflt show ?thesis by blast
qed

text \<open>
  The theorem on the versions \<open>2.0.0\<close>, \<open>2.1.0-beta\<close> and \<open>2.1.0\<close> with \<open>2.1.0\<close> reported
  as latest: \<open>latest\<close> and \<open>recommended\<close> are \<open>2.1.0\<close> and \<open>default\<close> is \<open>recommended\<close>.
\<close>

theorem getSupportedVersions_result_witness:
  "getSupportedVersions
     (example_os_deps (\<lambda>v r. False)
        \<lparr>body_versions = [''2.0.0'', ''2.1.0-beta'', ''2.1.0''], body_latest = Some ''2.1.0''\<rparr>)
     ''raspberry-pi''
   = Inr \<lparr>versions = [''2.1.0'', ''2.1.0-beta'', ''2.0.0''], recommended = Some ''2.1.0'',
          latest = Some ''2.1.0'', default_version = Some ''2.1.0''\<rparr>
   \<and> sorted_wrt (\<lambda>a b. model_rcompare a b \<le> 0) [''2.1.0'', ''2.1.0-beta'', ''2.0.0'']"
proof -
  let ?body = "\<lparr>body_versions = [''2.0.0'', ''2.1.0-beta'', ''2.1.0''],
                 body_latest = Some ''2.1.0''\<rparr>"
  let ?deps = "example_os_deps (\<lambda>v r. False) ?body"
  have rc: "rcompare (semver ?deps) = model_rcompare"
    by (simp add: example_os_deps_def model_semver_def)
  have total: "\<forall>a b. rcompare (semver ?deps) a b \<le> 0 \<or> rcompare (semver ?deps) b a \<le> 0"
    unfolding rc by (rule model_rcompare_total)
  have trans: "\<forall>a b c. rcompare (semver ?deps) a b \<le> 0 \<and> rcompare (semver ?deps) b c \<le> 0
                  \<longrightarrow> rcompare (semver ?deps) a c \<le> 0"
    unfolding rc by (rule model_rcompare_trans)
  have types: "getDeviceTypes ?deps = Inr [''raspberry-pi'']"
    by (simp add: example_os_deps_def)
  have valid: "findBySlug ?deps [''raspberry-pi''] ''raspberry-pi'' \<noteq> None"
    by (simp add: example_os_deps_def)
  have body: "imgMakerRequest ?deps (''/image/'' @ ''raspberry-pi'' @ ''/versions'') = Inr ?body"
    by (simp add: example_os_deps_def)
  have val: "getSupportedVersions ?deps ''raspberry-pi''
      = Inr \<lparr>versions = [''2.1.0'', ''2.1.0-beta'', ''2.0.0''], recommended = Some ''2.1.0'',
             latest = Some ''2.1.0'', default_version = Some ''2.1.0''\<rparr>"
    by (simp add: getSupportedVersions_def isValidDeviceType_def getOsVersions_def
        postProcess_def Let_def js_sort_def semver_model_simps)
  from getSupportedVersions_result [OF total trans types valid body]
  obtain r where r: "getSupportedVersions ?deps ''raspberry-pi'' = Inr r"
    and s: "sorted_wrt (\<lambda>a b. rcompare (semver ?deps) a b \<le> 0) (versions r)"
    by blast
  from r val have "r = \<lparr>versions = [''2.1.0'', ''2.1.0-beta'', ''2.0.0''],
      recommended = Some ''2.1.0'', latest = Some ''2.1.0'',
      default_version = Some ''2.1.0''\<rparr>"
    by simp
  then have "versions r = [''2.1.0'', ''2.1.0-beta'', ''2.0.0'']" by simp
  with s rc have "sorted_wrt (\<lambda>a b. model_rcompare a b \<le> 0) [''2.1.0'', ''2.1.0-beta'', ''2.0.0'']"
    by simp
  with val show ?thesis by simp
qed

section \<open>The highest version in a range\<close>

text \<open>
  C3. The claim has any string other than the three tokens resolved over the version
  list of the set. \<open>_getMaxSatisfyingVersion\<close> passes \<open>osVersions\<close>, the whole object,
  to \<open>semver.maxSatisfying\<close>, not \<open>osVersions.versions\<close>: the library is never given the
  list. With a library that walks an array the call fails with a \<open>TypeError\<close>, for the
  range \<open>^2.0.0\<close> and for the exact version \<open>2.0.0\<close> over \<open>1.9.0\<close>, \<open>2.0.0\<close>, \<open>2.3.1\<close>, whatever
  satisfies a range.
\<close>

theorem getMaxSatisfyingVersion_range_type_error:
  "getMaxSatisfyingVersion
     (example_os_deps satisfies
        \<lparr>body_versions = [''1.9.0'', ''2.0.0'', ''2.3.1''], body_latest = Some ''2.3.1''\<rparr>)
     ''raspberry-pi'' (Some ''^2.0.0'')
   = Inl (TypeError ''versions.forEach is not a function'')
   \<and> getMaxSatisfyingVersion
     (example_os_deps satisfies
        \<lparr>body_versions = [''1.9.0'', ''2.0.0'', ''2.3.1''], body_latest = Some ''2.3.1''\<rparr>)
     ''raspberry-pi'' (Some ''2.0.0'')
   = Inl (TypeError ''versions.forEach is not a function'')"
  by (simp add: getMaxSatisfyingVersion_def priv_getMaxSatisfyingVersion_def
      getSupportedVersions_def isValidDeviceType_def getOsVersions_def
      example_os_deps_def model_semver_def model_maxSatisfying_def)

section \<open>Resolving a reference\<close>

lemmas world_simps =
  example_world_def pine_get_applications_def pine_get_application_def mergePineOptions_def
  no_options_def passes_def expand_row_def issue_def toLowerCase_def lower_char_def
  normalizeApplication_def

text \<open>
  C8. For every reference that is a number, \<open>getId\<close> returns that number unchanged and
  issues no request: the remote side and the log of requests are as they were. The
  same holds for the \<open>getId\<close> of the older SDK.
\<close>

theorem getId_numeric:
  "isId (Num n)
   \<and> getId w (Num n) = (Inr n, w)
   \<and> requests (snd (getId w (Num n))) = requests w
   \<and> getId_resin w (Num n) = (Inr n, w)
   \<and> requests (snd (getId_resin w (Num n))) = requests w"
  by (simp add: isId_def getId_def getId_resin_def)

theorem getId_numeric_witness:
  "getId example_world (Num 42) = (Inr 42, example_world)
   \<and> requests (snd (getId example_world (Num 42))) = []"
  using getId_numeric [of 42 example_world] by (simp add: example_world_def)

text \<open>
  C2. For every reference that is a string, when the filtered lookup of \<open>get\<close> answers
  with no record \<open>get\<close> fails with \<open>BalenaApplicationNotFound\<close> carrying the reference, when
  it answers with exactly one record \<open>get\<close> returns that record (its embedded devices
  normalized; the record itself when no devices are embedded), and when it answers with
  two or more \<open>get\<close> fails with \<open>BalenaAmbiguousApplication\<close> carrying the reference. The
  \<open>get\<close> of the older SDK does the same on its lookup by name, with its own errors.
\<close>

theorem get_by_name_outcomes:
  "(pine_get_applications w
      (mergePineOptions (Some (\<lambda>r. row_app_name r = s \<or> row_slug r = toLowerCase s)) options)
      = (Inr apps, w')
    \<longrightarrow> (apps = [] \<longrightarrow> get w (Str s) options = (Inl (BalenaApplicationNotFound (Str s)), w'))
      \<and> (\<forall>a. apps = [a] \<longrightarrow> get w (Str s) options = (Inr (normalizeApplication w a), w'))
      \<and> (\<forall>a. apps = [a] \<and> owns__device a = None \<longrightarrow> get w (Str s) options = (Inr a, w'))
      \<and> (2 \<le> length apps
           \<longrightarrow> get w (Str s) options = (Inl (BalenaAmbiguousApplication (Str s)), w')))
   \<and> (pine_get_applications w (mergePineOptions (Some (\<lambda>r. row_app_name r = s)) options)
      = (Inr apps, w')
    \<longrightarrow> (apps = [] \<longrightarrow> get_resin w (Str s) options = (Inl (ResinApplicationNotFound (Str s)), w'))
      \<and> (\<forall>a. apps = [a] \<longrightarrow> get_resin w (Str s) options = (Inr (normalizeApplication w a), w'))
      \<and> (\<forall>a. apps = [a] \<and> owns__device a = None \<longrightarrow> get_resin w (Str s) options = (Inr a, w'))
      \<and> (2 \<le> length apps
           \<longrightarrow> get_resin w (Str s) options = (Inl (ResinAmbiguousApplication (Str s)), w')))"
  by (auto simp: get_def get_resin_def normalizeApplication_def)

text \<open>
  The theorem in the small fleet: no application is called \<open>Nope\<close>, one has the slug
  \<open>acme/myapp\<close>, two are called \<open>Twin\<close>.
\<close>

theorem get_by_name_outcomes_witness:
  "fst (get example_world (Str ''Nope'') no_options) = Inl (BalenaApplicationNotFound (Str ''Nope''))
   \<and> fst (get example_world (Str ''acme/myapp'') no_options)
       = Inr \<lparr>app_id = 1, app_name = ''MyApp'', slug = ''acme/myapp'',
              should_track_latest_release = True, should_be_running__release = [],
              owns__release = [], owns__device = None\<rparr>
   \<and> fst (get example_world (Str ''Twin'') no_options)
       = Inl (BalenaAmbiguousApplication (Str ''Twin''))
   \<and> fst (get_resin example_world (Str ''Twin'') no_options)
       = Inl (ResinAmbiguousApplication (Str ''Twin''))"
proof -
  let ?w' = "issue (PineGet ''application'') example_world"
  let ?f = "\<lambda>s. mergePineOptions (Some (\<lambda>r. row_app_name r = s \<or> row_slug r = toLowerCase s))
               no_options"
  let ?myapp = "\<lparr>app_id = 1, app_name = ''MyApp'', slug = ''acme/myapp'',
              should_track_latest_release = True, should_be_running__release = [],
              owns__release = [], owns__device = None\<rparr>"
  let ?twin2 = "\<lparr>app_id = 2, app_name = ''Twin'', slug = ''acme/twin'',
              should_track_latest_release = True, should_be_running__release = [],
              owns__release = [], owns__device = None\<rparr>"
  let ?twin3 = "\<lparr>app_id = 3, app_name = ''Twin'', slug = ''other/twin'',
              should_track_latest_release = True, should_be_running__release = [],
              owns__release = [], owns__device = None\<rparr>"
  have none: "pine_get_applications example_world (?f ''Nope'') = (Inr [], ?w')"
    by (simp add: world_simps)
  have one: "pine_get_applications example_world (?f ''acme/myapp'') = (Inr [?myapp], ?w')"
    by (simp add: world_simps)
  have two: "pine_get_applications example_world (?f ''Twin'') = (Inr [?twin2, ?twin3], ?w')"
    by (simp add: world_simps)
  have two': "pine_get_applications example_world
      (mergePineOptions (Some (\<lambda>r. row_app_name r = ''Twin'')) no_options)
      = (Inr [?twin2, ?twin3], ?w')"
    by (simp add: world_simps)
  from none get_by_name_outcomes [of example_world "''Nope''" no_options "[]" ?w']
  have a: "fst (get example_world (Str ''Nope'') no_options)
      = Inl (BalenaApplicationNotFound (Str ''Nope''))"
    by simp
  from one get_by_name_outcomes [of example_world "''acme/myapp''" no_options "[?myapp]" ?w']
  have b: "fst (get example_world (Str ''acme/myapp'') no_options) = Inr ?myapp"
    by (simp add: normalizeApplication_def)
  from two get_by_name_outcomes [of example_world "''Twin''" no_options "[?twin2, ?twin3]" ?w']
  have c: "fst (get example_world (Str ''Twin'') no_options)
      = Inl (BalenaAmbiguousApplication (Str ''Twin''))"
    by simp
  from two' get_by_name_outcomes [of example_world "''Twin''" no_options "[?twin2, ?twin3]" ?w']
  have d: "fst (get_resin example_world (Str ''Twin'') no_options)
      = Inl (ResinAmbiguousApplication (Str ''Twin''))"
    by simp
  from a b c d show ?thesis by simp
qed

section \<open>Slugs in any letter case\<close>

text \<open>
  C10 (counterexample). The filter of \<open>get\<close> lowercases the reference for the slug only;
  the name is compared as given. In a fleet where one application has the slug
  \<open>acme/myapp\<close> and another is named \<open>Acme/MyApp\<close>, the reference \<open>Acme/MyApp\<close> matches
  both and is ambiguous, while \<open>acme/myapp\<close> resolves to the first.
\<close>

theorem get_slug_case_counterexample:
  "toLowerCase ''Acme/MyApp'' = toLowerCase ''acme/myapp''
   \<and> fst (get collision_world (Str ''Acme/MyApp'') no_options)
       = Inl (BalenaAmbiguousApplication (Str ''Acme/MyApp''))
   \<and> fst (get collision_world (Str ''acme/myapp'') no_options)
       = Inr \<lparr>app_id = 1, app_name = ''MyApp'', slug = ''acme/myapp'',
              should_track_latest_release = True, should_be_running__release = [],
              owns__release = [], owns__device = None\<rparr>"
  by (simp add: get_def collision_world_def world_simps)

lemma same_matches:
  assumes "toLowerCase r1 = toLowerCase r2"
    and "\<forall>a \<in> set (applications w). row_app_name a \<noteq> r1 \<and> row_app_name a \<noteq> r2"
  shows "pine_get_applications w
           (mergePineOptions (Some (\<lambda>r. row_app_name r = r1 \<or> row_slug r = toLowerCase r1)) options)
       = pine_get_applications w
           (mergePineOptions (Some (\<lambda>r. row_app_name r = r2 \<or> row_slug r = toLowerCase r2)) options)"
proof -
  let ?o1 = "mergePineOptions (Some (\<lambda>r. row_app_name r = r1 \<or> row_slug r = toLowerCase r1)) options"
  let ?o2 = "mergePineOptions (Some (\<lambda>r. row_app_name r = r2 \<or> row_slug r = toLowerCase r2)) options"
  have p: "\<And>a. a \<in> set (applications w) \<Longrightarrow> passes ?o1 a = passes ?o2 a"
    using assms by (auto simp: passes_def mergePineOptions_def split: option.splits)
  then have f: "filter (passes ?o1) (applications w) = filter (passes ?o2) (applications w)"
    by (auto intro: filter_cong)
  have e: "expand_row w ?o1 = expand_row w ?o2"
    by (auto simp: expand_row_def mergePineOptions_def fun_eq_iff)
  show ?thesis
    unfolding pine_get_applications_def f e by simp
qed

text \<open>
  C10 (amended). Two \<open>get\<close> calls whose string arguments differ only in letter case
  resolve to the same application record, or both fail, and leave the same requests
  behind, provided no application is named exactly as either argument is spelled: the
  slug component of the filter is lowercased, the name component is not.
  \<open>getAppByOwner\<close> lowercases both of its parts and gives the same result for arguments
  that differ only in letter case, without the proviso.
\<close>

theorem get_slug_case_insensitive:
  "(toLowerCase r1 = toLowerCase r2
     \<and> (\<forall>a \<in> set (applications w). row_app_name a \<noteq> r1 \<and> row_app_name a \<noteq> r2)
    \<longrightarrow> (\<forall>a. fst (get w (Str r1) options) = Inr a \<longleftrightarrow> fst (get w (Str r2) options) = Inr a)
      \<and> snd (get w (Str r1) options) = snd (get w (Str r2) options))
   \<and> (toLowerCase a1 = toLowerCase a2 \<and> toLowerCase o1 = toLowerCase o2
    \<longrightarrow> getAppByOwner w a1 o1 options = getAppByOwner w a2 o2 options)"
proof (intro conjI impI)
  assume h: "toLowerCase r1 = toLowerCase r2
     \<and> (\<forall>a \<in> set (applications w). row_app_name a \<noteq> r1 \<and> row_app_name a \<noteq> r2)"
  then have m: "pine_get_applications w
           (mergePineOptions (Some (\<lambda>r. row_app_name r = r1 \<or> row_slug r = toLowerCase r1)) options)
       = pine_get_applications w
           (mergePineOptions (Some (\<lambda>r. row_app_name r = r2 \<or> row_slug r = toLowerCase r2)) options)"
    using same_matches by blast
  show "\<forall>a. fst (get w (Str r1) options) = Inr a \<longleftrightarrow> fst (get w (Str r2) options) = Inr a"
    by (auto simp: get_def m split: prod.splits sum.splits if_splits)
  show "snd (get w (Str r1) options) = snd (get w (Str r2) options)"
    by (auto simp: get_def m split: prod.splits sum.splits if_splits)
next
  assume "toLowerCase a1 = toLowerCase a2 \<and> toLowerCase o1 = toLowerCase o2"
  then show "getAppByOwner w a1 o1 options = getAppByOwner w a2 o2 options"
    by (simp add: getAppByOwner_def)
qed

text \<open>The theorem in the small fleet, where no application is named like a slug.\<close>

theorem get_slug_case_insensitive_witness:
  "toLowerCase ''Acme/MyApp'' = toLowerCase ''acme/myapp''
   \<and> fst (get example_world (Str ''Acme/MyApp'') no_options)
       = Inr \<lparr>app_id = 1, app_name = ''MyApp'', slug = ''acme/myapp'',
              should_track_latest_release = True, should_be_running__release = [],
              owns__release = [], owns__device = None\<rparr>
   \<and> fst (get example_world (Str ''acme/myapp'') no_options)
       = Inr \<lparr>app_id = 1, app_name = ''MyApp'', slug = ''acme/myapp'',
              should_track_latest_release = True, should_be_running__release = [],
              owns__release = [], owns__device = None\<rparr>
   \<and> getAppByOwner example_world ''MyApp'' ''Acme'' no_options
       = getAppByOwner example_world ''myapp'' ''acme'' no_options"
proof -
  let ?a = "\<lparr>app_id = 1, app_name = ''MyApp'', slug = ''acme/myapp'',
              should_track_latest_release = True, should_be_running__release = [],
              owns__release = [], owns__device = None\<rparr>"
  have l: "toLowerCase ''Acme/MyApp'' = toLowerCase ''acme/myapp''"
    by (simp add: toLowerCase_def lower_char_def)
  have n: "\<forall>a \<in> set (applications example_world).
      row_app_name a \<noteq> ''Acme/MyApp'' \<and> row_app_name a \<noteq> ''acme/myapp''"
    by (simp add: example_world_def)
  have o: "toLowerCase ''MyApp'' = toLowerCase ''myapp'' \<and> toLowerCase ''Acme'' = toLowerCase ''acme''"
    by (simp add: toLowerCase_def lower_char_def)
  have v: "fst (get example_world (Str ''acme/myapp'') no_options) = Inr ?a"
    by (simp add: get_def world_simps)
  note t = get_slug_case_insensitive [of "''Acme/MyApp''" "''acme/myapp''" example_world
      no_options "''MyApp''" "''myapp''" "''Acme''" "''acme''"]
  from t l n v have u: "fst (get example_world (Str ''Acme/MyApp'') no_options) = Inr ?a"
    by blast
  from t o have g: "getAppByOwner example_world ''MyApp'' ''Acme'' no_options
       = getAppByOwner example_world ''myapp'' ''acme'' no_options"
    by blast
  from l u v g show ?thesis by blast
qed

section \<open>Pinning a release\<close>

lemma find_map_row:
  "find P (map f xs) = map_option f (find (\<lambda>x. P (f x)) xs)"
  by (induction xs) simp_all

lemma apply_patch_keeps:
  "row_id (apply_patch b x) = row_id x"
  "row_app_name (apply_patch b x) = row_app_name x"
  "row_slug (apply_patch b x) = row_slug x"
  by (simp_all add: apply_patch_def)

lemma isTracking_untracked:
  assumes "fst (get w r tracking_options) = Inr a"
    and "\<not> should_track_latest_release a"
  shows "fst (isTrackingLatestRelease w r) = Inr False"
  using assms
  by (auto simp: isTrackingLatestRelease_def tracking_options_def Let_def
      split: prod.splits sum.splits list.splits)

lemma get_Num_row:
  "fst (get w (Num n) options) = Inr a \<longleftrightarrow>
     fault w (PineGet ''application'') = None
     \<and> (\<exists>x. find (\<lambda>x. row_id x = n \<and> passes options x) (applications w) = Some x
          \<and> a = normalizeApplication w (expand_row w options x))"
  by (auto simp: get_def pine_get_application_def mergePineOptions_def Let_def
      split: option.splits)

lemma get_Str_row:
  "fst (get w (Str s) options) = Inr a \<longleftrightarrow>
     fault w (PineGet ''application'') = None
     \<and> (\<exists>x. filter (passes (mergePineOptions
                (Some (\<lambda>r. row_app_name r = s \<or> row_slug r = toLowerCase s)) options))
              (applications w) = [x]
          \<and> a = normalizeApplication w (expand_row w (mergePineOptions
                (Some (\<lambda>r. row_app_name r = s \<or> row_slug r = toLowerCase s)) options) x))"
  apply (simp add: get_def pine_get_applications_def Let_def split: option.splits)
  apply (cases "filter (passes (mergePineOptions
                (Some (\<lambda>r. row_app_name r = s \<or> row_slug r = toLowerCase s)) options))
              (applications w)")
   apply simp
  subgoal for x xs by (cases xs) auto
  done

lemma get_world:
  "snd (get w r options) = w \<or> snd (get w r options) = issue (PineGet ''application'') w"
  by (cases r)
    (auto simp: get_def pine_get_application_def pine_get_applications_def Let_def
      split: option.splits sum.splits prod.splits)

lemma getId_world:
  "snd (getId w r) = w \<or> snd (getId w r) = issue (PineGet ''application'') w"
  using get_world [of w r no_options]
  by (cases r) (auto simp: getId_def split: prod.splits sum.splits)

lemma normalizeApplication_fields:
  "app_id (normalizeApplication w a) = app_id a"
  "should_track_latest_release (normalizeApplication w a) = should_track_latest_release a"
  "owns__release (normalizeApplication w a) = owns__release a"
  "should_be_running__release (normalizeApplication w a) = should_be_running__release a"
  by (simp_all add: normalizeApplication_def split: option.splits)

lemma expand_row_fields:
  "app_id (expand_row w options x) = row_id x"
  "should_track_latest_release (expand_row w options x) = row_should_track_latest_release x"
  by (simp_all add: expand_row_def)

lemma find_holds: "find P xs = Some x \<Longrightarrow> P x \<and> x \<in> set xs"
  by (induction xs) (auto split: if_splits)

lemma getId_app_id:
  assumes "getId w r = (Inr n, w1)" and "fst (get w r no_options) = Inr a"
  shows "app_id a = n"
proof (cases r)
  case Null
  with assms show ?thesis by (simp add: get_def)
next
  case (Num m)
  with assms(1) have "m = n" by (simp add: getId_def)
  with Num assms(2) have "fst (get w (Num n) no_options) = Inr a" by simp
  then obtain x
    where "find (\<lambda>x. row_id x = n \<and> passes no_options x) (applications w) = Some x"
      and "a = normalizeApplication w (expand_row w no_options x)"
    unfolding get_Num_row by blast
  then show ?thesis
    by (auto dest: find_holds simp: normalizeApplication_fields expand_row_fields)
next
  case (Str s)
  with assms show ?thesis
    by (auto simp: getId_def split: prod.splits sum.splits)
qed

lemma pin_effect:
  assumes "pinToRelease w r h = (Inr (), w')"
  shows "\<exists>n w1 rel. getId w r = (Inr n, w1)
    \<and> fault w' = fault w \<and> releases w' = releases w \<and> devices w' = devices w
    \<and> normalizeDeviceOsVersion w' = normalizeDeviceOsVersion w
    \<and> applications w' =
        map (\<lambda>x. if row_id x = n
                 then apply_patch \<lparr>patch_should_be_running__release = Some rel,
                                   patch_should_track_latest_release = Some False\<rparr> x
                 else x) (applications w)
    \<and> requests w' = requests w1 @ [PineGet ''release'',
        PinePatch ''application'' n \<lparr>patch_should_be_running__release = Some rel,
                                   patch_should_track_latest_release = Some False\<rparr>]"
proof -
  obtain res w1 where g: "getId w r = (res, w1)" by (cases "getId w r")
  with assms obtain n where n: "res = Inr n"
    by (cases res) (auto simp: pinToRelease_def)
  from getId_world [of w r] g
  have w1: "w1 = w \<or> w1 = issue (PineGet ''application'') w" by simp
  from assms g n w1 show ?thesis
    by (auto simp: pinToRelease_def releaseModel_get_def pine_patch_application_def
        issue_def Let_def split: option.splits list.splits)
qed


lemma passes_no_filter:
  "passes no_options x" "passes tracking_options x"
  by (simp_all add: passes_def no_options_def tracking_options_def)

lemma passes_name_filter:
  "passes (mergePineOptions (Some f) no_options) = f"
  "passes (mergePineOptions (Some f) tracking_options) = f"
  by (simp_all add: fun_eq_iff passes_def mergePineOptions_def no_options_def
      tracking_options_def)

text \<open>
  C5. For every application that \<open>get\<close> resolves and every \<open>pinToRelease\<close> on it that
  succeeds, the call ends with a single patch request on the application that sets the
  pinned release and clears the tracking flag together (only lookups come before it),
  and \<open>isTrackingLatestRelease\<close> on the same reference right after returns \<open>false\<close>,
  whichever release was pinned.
\<close>

theorem pinToRelease_then_not_tracking:
  assumes pin: "pinToRelease w r h = (Inr (), w')"
    and exists: "fst (get w r no_options) = Inr a"
  shows "fst (isTrackingLatestRelease w' r) = Inr False
    \<and> (\<exists>gets rel.
          requests w' = requests w @ gets @
            [PinePatch ''application'' (app_id a)
               \<lparr>patch_should_be_running__release = Some rel,
                patch_should_track_latest_release = Some False\<rparr>]
          \<and> set gets \<subseteq> {PineGet ''application'', PineGet ''release''})"
proof -
  let ?body = "\<lambda>rel. \<lparr>patch_should_be_running__release = Some rel,
                       patch_should_track_latest_release = Some False\<rparr>"
  from pin_effect [OF pin] obtain n w1 rel where
    gid: "getId w r = (Inr n, w1)"
    and fault: "fault w' = fault w"
    and apps: "applications w' =
        map (\<lambda>x. if row_id x = n then apply_patch (?body rel) x else x) (applications w)"
    and reqs: "requests w' = requests w1 @ [PineGet ''release'', PinePatch ''application'' n (?body rel)]"
    by blast
  let ?f = "\<lambda>x. if row_id x = n then apply_patch (?body rel) x else x"
  have keep: "\<And>x. row_id (?f x) = row_id x" "\<And>x. row_app_name (?f x) = row_app_name x"
    "\<And>x. row_slug (?f x) = row_slug x"
    by (simp_all add: apply_patch_keeps)
  from getId_app_id [OF gid exists] have n: "app_id a = n" .
  have "\<exists>a'. fst (get w' r tracking_options) = Inr a' \<and> \<not> should_track_latest_release a'"
  proof (cases r)
    case Null
    with exists show ?thesis by (simp add: get_def)
  next
    case (Num m)
    with gid have m: "m = n" by (simp add: getId_def)
    from exists Num m have "fst (get w (Num n) no_options) = Inr a" by simp
    then obtain x where
      f0: "fault w (PineGet ''application'') = None"
      and x: "find (\<lambda>x. row_id x = n \<and> passes no_options x) (applications w) = Some x"
      unfolding get_Num_row by blast
    from x have idx: "row_id x = n" by (auto dest: find_holds)
    from x have "find (\<lambda>x. row_id x = n \<and> passes tracking_options x) (applications w') = Some (?f x)"
      unfolding apps find_map_row by (simp add: passes_no_filter keep)
    with f0 fault
    have "fst (get w' (Num n) tracking_options)
        = Inr (normalizeApplication w' (expand_row w' tracking_options (?f x)))"
      unfolding get_Num_row by simp
    moreover have "\<not> should_track_latest_release
        (normalizeApplication w' (expand_row w' tracking_options (?f x)))"
      using idx by (simp add: normalizeApplication_fields expand_row_fields apply_patch_def)
    ultimately show ?thesis using Num m by blast
  next
    case (Str s)
    let ?p = "\<lambda>r. row_app_name r = s \<or> row_slug r = toLowerCase s"
    from exists Str have "fst (get w (Str s) no_options) = Inr a" by simp
    then obtain x where
      f0: "fault w (PineGet ''application'') = None"
      and x: "filter (passes (mergePineOptions (Some ?p) no_options)) (applications w) = [x]"
      and a: "a = normalizeApplication w (expand_row w (mergePineOptions (Some ?p) no_options) x)"
      unfolding get_Str_row by blast
    from a n have idx: "row_id x = n"
      by (simp add: normalizeApplication_fields expand_row_fields)
    from x have x': "filter ?p (applications w) = [x]"
      by (simp add: passes_name_filter)
    have "filter (passes (mergePineOptions (Some ?p) tracking_options)) (applications w')
        = map ?f (filter ?p (applications w))"
      unfolding apps filter_map by (simp add: passes_name_filter comp_def keep)
    with x' have "filter (passes (mergePineOptions (Some ?p) tracking_options)) (applications w')
        = [?f x]"
      by simp
    with f0 fault
    have "fst (get w' (Str s) tracking_options)
        = Inr (normalizeApplication w'
            (expand_row w' (mergePineOptions (Some ?p) tracking_options) (?f x)))"
      unfolding get_Str_row by simp
    moreover have "\<not> should_track_latest_release (normalizeApplication w'
            (expand_row w' (mergePineOptions (Some ?p) tracking_options) (?f x)))"
      using idx by (simp add: normalizeApplication_fields expand_row_fields apply_patch_def)
    ultimately show ?thesis using Str by blast
  qed
  then have track: "fst (isTrackingLatestRelease w' r) = Inr False"
    using isTracking_untracked by blast
  from getId_world [of w r] gid
  have "w1 = w \<or> w1 = issue (PineGet ''application'') w" by simp
  then have "requests w1 = requests w @ [] \<or> requests w1 = requests w @ [PineGet ''application'']"
    by (auto simp: issue_def)
  then have log: "\<exists>gets rel.
          requests w' = requests w @ gets @ [PinePatch ''application'' (app_id a) (?body rel)]
          \<and> set gets \<subseteq> {PineGet ''application'', PineGet ''release''}"
  proof
    assume "requests w1 = requests w @ []"
    with reqs n have "requests w' = requests w @ [PineGet ''release''] @
        [PinePatch ''application'' (app_id a) (?body rel)]
      \<and> set [PineGet ''release''] \<subseteq> {PineGet ''application'', PineGet ''release''}"
      by simp
    then show ?thesis by blast
  next
    assume "requests w1 = requests w @ [PineGet ''application'']"
    with reqs n have "requests w' = requests w @ [PineGet ''application'', PineGet ''release''] @
        [PinePatch ''application'' (app_id a) (?body rel)]
      \<and> set [PineGet ''application'', PineGet ''release'']
          \<subseteq> {PineGet ''application'', PineGet ''release''}"
      by simp
    then show ?thesis by blast
  qed
  from track log show ?thesis by blast
qed

text \<open>
  The theorem in the small fleet: \<open>MyApp\<close> is pinned to \<open>bbb\<close>, which is its latest
  qualifying release.
\<close>

theorem pinToRelease_then_not_tracking_witness:
  "fst (pinToRelease example_world (Num 1) ''bbb'') = Inr ()
   \<and> fst (isTrackingLatestRelease (snd (pinToRelease example_world (Num 1) ''bbb'')) (Num 1))
       = Inr False
   \<and> map release_id (qualifying_releases example_world 1) = [10, 11]"
proof -
  let ?w' = "snd (pinToRelease example_world (Num 1) ''bbb'')"
  have ok: "fst (pinToRelease example_world (Num 1) ''bbb'') = Inr ()"
    by (simp add: pinToRelease_def getId_def releaseModel_get_def pine_patch_application_def
        example_world_def issue_def)
  then have pin: "pinToRelease example_world (Num 1) ''bbb'' = (Inr (), ?w')"
    by (simp add: prod_eq_iff)
  have ex: "fst (get example_world (Num 1) no_options)
      = Inr \<lparr>app_id = 1, app_name = ''MyApp'', slug = ''acme/myapp'',
             should_track_latest_release = True, should_be_running__release = [],
             owns__release = [], owns__device = None\<rparr>"
    by (simp add: get_def world_simps)
  have q: "map release_id (qualifying_releases example_world 1) = [10, 11]"
    by (simp add: qualifying_releases_def example_world_def)
  from pinToRelease_then_not_tracking [OF pin ex] ok q show ?thesis by blast
qed

section \<open>Tracking the latest release\<close>

lemma js_sort_set: "set (js_sort cmp xs) = set xs"
  using js_sort_mset [of cmp xs] by (metis set_mset_mset)

lemma newest_first:
  fixes xs :: "release list"
  assumes "xs \<noteq> []"
  shows "\<exists>l rest. js_sort (\<lambda>a b. int (created_at b) - int (created_at a)) xs = l # rest
    \<and> l \<in> set xs \<and> (\<forall>x \<in> set xs. created_at x \<le> created_at l)"
proof -
  let ?cmp = "\<lambda>a b :: release. int (created_at b) - int (created_at a)"
  have s: "sorted_wrt (\<lambda>a b. ?cmp a b \<le> 0) (js_sort ?cmp xs)"
    by (rule js_sort_sorted) auto
  from assms have "js_sort ?cmp xs \<noteq> []"
    using js_sort_set [of ?cmp xs] by auto
  then obtain l rest where lr: "js_sort ?cmp xs = l # rest"
    by (cases "js_sort ?cmp xs") auto
  with js_sort_set [of ?cmp xs] have set: "set xs = insert l (set rest)" by simp
  from s lr have "\<forall>x \<in> set rest. created_at x \<le> created_at l" by auto
  with set lr show ?thesis by auto
qed

lemma get_track_options:
  assumes "get w r track_options = (Inr a, w1)"
  shows "owns__release a =
      take 1 (js_sort (\<lambda>a b. int (created_at b) - int (created_at a))
                (qualifying_releases w (app_id a)))"
    and "fault w1 = fault w" and "applications w1 = applications w"
    and "\<exists>x \<in> set (applications w). row_id x = app_id a"
proof -
  have q: "\<And>ps x. expand_owns__release ps = Some latest_release_query \<Longrightarrow>
      owns__release (normalizeApplication w (expand_row w ps x)) =
      take 1 (js_sort (\<lambda>a b. int (created_at b) - int (created_at a))
                (qualifying_releases w (row_id x)))"
    by (simp add: normalizeApplication_fields expand_row_def run_release_query_def
        latest_release_query_def qualifying_releases_def)
  from get_world [of w r track_options] assms
  have w1: "w1 = w \<or> w1 = issue (PineGet ''application'') w" by simp
  then show "fault w1 = fault w" "applications w1 = applications w"
    by (auto simp: issue_def)
  from assms have f: "fst (get w r track_options) = Inr a" by simp
  show "owns__release a =
      take 1 (js_sort (\<lambda>a b. int (created_at b) - int (created_at a))
                (qualifying_releases w (app_id a)))"
  proof (cases r)
    case Null
    with assms show ?thesis by (simp add: get_def)
  next
    case (Num n)
    with f have "fst (get w (Num n) track_options) = Inr a" by simp
    then obtain x where "a = normalizeApplication w (expand_row w track_options x)"
      unfolding get_Num_row by blast
    then show ?thesis
      using q [of track_options x]
      by (simp add: normalizeApplication_fields expand_row_fields track_options_def)
  next
    case (Str s)
    let ?ps = "mergePineOptions (Some (\<lambda>r. row_app_name r = s \<or> row_slug r = toLowerCase s))
        track_options"
    from Str f have "fst (get w (Str s) track_options) = Inr a" by simp
    then obtain x where "a = normalizeApplication w (expand_row w ?ps x)"
      unfolding get_Str_row by blast
    then show ?thesis
      using q [of ?ps x]
      by (simp add: normalizeApplication_fields expand_row_fields track_options_def
          mergePineOptions_def)
  qed
  show "\<exists>x \<in> set (applications w). row_id x = app_id a"
  proof (cases r)
    case Null
    with assms show ?thesis by (simp add: get_def)
  next
    case (Num n)
    with f have "fst (get w (Num n) track_options) = Inr a" by simp
    then obtain x where "find (\<lambda>x. row_id x = n \<and> passes track_options x) (applications w) = Some x"
      and "a = normalizeApplication w (expand_row w track_options x)"
      unfolding get_Num_row by blast
    then show ?thesis
      by (auto dest: find_holds simp: normalizeApplication_fields expand_row_fields)
  next
    case (Str s)
    let ?ps = "mergePineOptions (Some (\<lambda>r. row_app_name r = s \<or> row_slug r = toLowerCase s))
        track_options"
    from Str f have "fst (get w (Str s) track_options) = Inr a" by simp
    then obtain x where x: "filter (passes ?ps) (applications w) = [x]"
      and a: "a = normalizeApplication w (expand_row w ?ps x)"
      unfolding get_Str_row by blast
    from x have "x \<in> set (filter (passes ?ps) (applications w))" by simp
    then have "x \<in> set (applications w)" by simp
    with a show ?thesis
      by (auto simp: normalizeApplication_fields expand_row_fields)
  qed
qed


lemma trackLatestRelease_patch:
  assumes "get w r track_options = (Inr a, w1)"
  shows "trackLatestRelease w r =
     pine_patch_application w1 (app_id a)
       (case owns__release a of
          [] \<Rightarrow> \<lparr>patch_should_be_running__release = None,
                 patch_should_track_latest_release = Some True\<rparr>
        | l # _ \<Rightarrow> \<lparr>patch_should_be_running__release = Some (release_id l),
                    patch_should_track_latest_release = Some True\<rparr>)"
  using assms
  by (simp add: trackLatestRelease_def track_options_def Let_def split: list.splits)

lemma patch_effect:
  assumes "fault w1 = fault w" and "applications w1 = applications w"
  shows "requests (snd (pine_patch_application w1 n body))
      = requests w1 @ [PinePatch ''application'' n body]"
    and "patch_should_be_running__release body = None \<Longrightarrow>
      map row_should_be_running__release (applications (snd (pine_patch_application w1 n body)))
      = map row_should_be_running__release (applications w)"
    and "fault w (PinePatch ''application'' n body) = None \<Longrightarrow>
      fst (pine_patch_application w1 n body) = Inr ()
      \<and> applications (snd (pine_patch_application w1 n body))
        = map (\<lambda>x. if row_id x = n then apply_patch body x else x) (applications w)"
  using assms
  by (auto simp: pine_patch_application_def issue_def Let_def apply_patch_def
      split: option.splits)

text \<open>
  C7. Let \<open>trackLatestRelease\<close> resolve its application. When the application has no
  qualifying release (none that is final, passes its tests, is not invalidated and has
  the status \<open>success\<close>), the one request of the update sets the tracking flag to true
  and leaves the pinned release out of the body, and the pinned release of every
  application is what it was. When there is a qualifying release, the same single
  request also sets the pinned release to the most recent of them. Unless the transport
  fails that request, the call succeeds and the row is written so.
\<close>

theorem trackLatestRelease_request:
  assumes get: "get w r track_options = (Inr a, w1)"
  shows "(qualifying_releases w (app_id a) = [] \<longrightarrow>
      requests (snd (trackLatestRelease w r))
        = requests w1 @ [PinePatch ''application'' (app_id a)
            \<lparr>patch_should_be_running__release = None,
             patch_should_track_latest_release = Some True\<rparr>]
      \<and> map row_should_be_running__release (applications (snd (trackLatestRelease w r)))
        = map row_should_be_running__release (applications w)
      \<and> (fault w (PinePatch ''application'' (app_id a)
            \<lparr>patch_should_be_running__release = None,
             patch_should_track_latest_release = Some True\<rparr>) = None \<longrightarrow>
          fst (trackLatestRelease w r) = Inr ()
          \<and> (\<forall>x \<in> set (applications (snd (trackLatestRelease w r))).
                row_id x = app_id a \<longrightarrow> row_should_track_latest_release x)))
    \<and> (qualifying_releases w (app_id a) \<noteq> [] \<longrightarrow>
      (\<exists>l \<in> set (qualifying_releases w (app_id a)).
         (\<forall>x \<in> set (qualifying_releases w (app_id a)). created_at x \<le> created_at l)
         \<and> requests (snd (trackLatestRelease w r))
           = requests w1 @ [PinePatch ''application'' (app_id a)
               \<lparr>patch_should_be_running__release = Some (release_id l),
                patch_should_track_latest_release = Some True\<rparr>]
         \<and> (fault w (PinePatch ''application'' (app_id a)
               \<lparr>patch_should_be_running__release = Some (release_id l),
                patch_should_track_latest_release = Some True\<rparr>) = None \<longrightarrow>
             fst (trackLatestRelease w r) = Inr ()
             \<and> (\<forall>x \<in> set (applications (snd (trackLatestRelease w r))).
                   row_id x = app_id a \<longrightarrow>
                     row_should_track_latest_release x
                     \<and> row_should_be_running__release x = Some (release_id l)))))"
    (is "(?none \<longrightarrow> ?A) \<and> (?some \<longrightarrow> ?B)")
proof (rule conjI; rule impI)
  note frame = get_track_options(2,3) [OF get]
  note owns = get_track_options(1) [OF get]
  let ?only = "\<lparr>patch_should_be_running__release = None,
                 patch_should_track_latest_release = Some True\<rparr>"
  assume none: ?none
  with owns have "owns__release a = []" by (simp add: js_sort_def)
  with trackLatestRelease_patch [OF get]
  have t: "trackLatestRelease w r = pine_patch_application w1 (app_id a) ?only" by simp
  have 1: "requests (snd (trackLatestRelease w r))
      = requests w1 @ [PinePatch ''application'' (app_id a) ?only]"
    unfolding t by (rule patch_effect(1) [OF frame])
  have 2: "map row_should_be_running__release (applications (snd (trackLatestRelease w r)))
      = map row_should_be_running__release (applications w)"
    unfolding t by (rule patch_effect(2) [OF frame]) simp
  have 3: "fault w (PinePatch ''application'' (app_id a) ?only) = None \<longrightarrow>
          fst (trackLatestRelease w r) = Inr ()
          \<and> (\<forall>x \<in> set (applications (snd (trackLatestRelease w r))).
                row_id x = app_id a \<longrightarrow> row_should_track_latest_release x)"
  proof
    assume nf: "fault w (PinePatch ''application'' (app_id a) ?only) = None"
    note p = patch_effect(3) [OF frame nf]
    from p have a: "fst (trackLatestRelease w r) = Inr ()" unfolding t by simp
    from p have "applications (snd (trackLatestRelease w r))
        = map (\<lambda>x. if row_id x = app_id a then apply_patch ?only x else x) (applications w)"
      unfolding t by simp
    then have b: "\<forall>x \<in> set (applications (snd (trackLatestRelease w r))).
                row_id x = app_id a \<longrightarrow> row_should_track_latest_release x"
      by (auto simp: apply_patch_def)
    from a b show "fst (trackLatestRelease w r) = Inr ()
          \<and> (\<forall>x \<in> set (applications (snd (trackLatestRelease w r))).
                row_id x = app_id a \<longrightarrow> row_should_track_latest_release x)"
      by (rule conjI)
  qed
  from 1 2 3 show ?A by (intro conjI)
next
  note frame = get_track_options(2,3) [OF get]
  note owns = get_track_options(1) [OF get]
  assume some: ?some
  from newest_first [OF some] obtain l rest where
    lr: "js_sort (\<lambda>a b. int (created_at b) - int (created_at a))
           (qualifying_releases w (app_id a)) = l # rest"
    and l: "l \<in> set (qualifying_releases w (app_id a))"
    and newest: "\<forall>x \<in> set (qualifying_releases w (app_id a)). created_at x \<le> created_at l"
    by blast
  let ?both = "\<lparr>patch_should_be_running__release = Some (release_id l),
                 patch_should_track_latest_release = Some True\<rparr>"
  from owns lr have "owns__release a = [l]" by simp
  with trackLatestRelease_patch [OF get]
  have t: "trackLatestRelease w r = pine_patch_application w1 (app_id a) ?both" by simp
  have reqs: "requests (snd (trackLatestRelease w r))
      = requests w1 @ [PinePatch ''application'' (app_id a) ?both]"
    unfolding t by (rule patch_effect(1) [OF frame])
  have ok: "fault w (PinePatch ''application'' (app_id a) ?both) = None \<longrightarrow>
           fst (trackLatestRelease w r) = Inr ()
           \<and> (\<forall>x \<in> set (applications (snd (trackLatestRelease w r))).
                 row_id x = app_id a \<longrightarrow>
                   row_should_track_latest_release x
                   \<and> row_should_be_running__release x = Some (release_id l))"
  proof
    assume nf: "fault w (PinePatch ''application'' (app_id a) ?both) = None"
    note p = patch_effect(3) [OF frame nf]
    from p have a: "fst (trackLatestRelease w r) = Inr ()" unfolding t by simp
    from p have "applications (snd (trackLatestRelease w r))
        = map (\<lambda>x. if row_id x = app_id a then apply_patch ?both x else x) (applications w)"
      unfolding t by simp
    then have b: "\<forall>x \<in> set (applications (snd (trackLatestRelease w r))).
                 row_id x = app_id a \<longrightarrow>
                   row_should_track_latest_release x
                   \<and> row_should_be_running__release x = Some (release_id l)"
      by (auto simp: apply_patch_def)
    from a b show "fst (trackLatestRelease w r) = Inr ()
           \<and> (\<forall>x \<in> set (applications (snd (trackLatestRelease w r))).
                 row_id x = app_id a \<longrightarrow>
                   row_should_track_latest_release x
                   \<and> row_should_be_running__release x = Some (release_id l))"
      by (rule conjI)
  qed
  from newest reqs ok have "(\<forall>x \<in> set (qualifying_releases w (app_id a)). created_at x \<le> created_at l)
         \<and> requests (snd (trackLatestRelease w r))
           = requests w1 @ [PinePatch ''application'' (app_id a) ?both]
         \<and> (fault w (PinePatch ''application'' (app_id a) ?both) = None \<longrightarrow>
             fst (trackLatestRelease w r) = Inr ()
             \<and> (\<forall>x \<in> set (applications (snd (trackLatestRelease w r))).
                   row_id x = app_id a \<longrightarrow>
                     row_should_track_latest_release x
                     \<and> row_should_be_running__release x = Some (release_id l)))"
    by (intro conjI)
  with l show ?B by (rule bexI [rotated])
qed

text \<open>
  The theorem in the small fleet: \<open>Fresh\<close> has no release and keeps its pinned release
  \<open>10\<close>; \<open>MyApp\<close> is set to \<open>11\<close>, the most recent of its two qualifying releases.
\<close>

theorem trackLatestRelease_request_witness:
  "qualifying_releases example_world 4 = []
   \<and> fst (trackLatestRelease example_world (Str ''Fresh'')) = Inr ()
   \<and> requests (snd (trackLatestRelease example_world (Str ''Fresh'')))
       = [PineGet ''application'',
          PinePatch ''application'' 4
            \<lparr>patch_should_be_running__release = None,
             patch_should_track_latest_release = Some True\<rparr>]
   \<and> map row_should_be_running__release
         (applications (snd (trackLatestRelease example_world (Str ''Fresh''))))
       = [Some 10, None, None, Some 10]
   \<and> requests (snd (trackLatestRelease example_world (Num 1)))
       = [PineGet ''application'',
          PinePatch ''application'' 1
            \<lparr>patch_should_be_running__release = Some 11,
             patch_should_track_latest_release = Some True\<rparr>]"
proof -
  let ?a = "\<lparr>app_id = 4, app_name = ''Fresh'', slug = ''acme/fresh'',
             should_track_latest_release = False, should_be_running__release = [],
             owns__release = [], owns__device = None\<rparr>"
  let ?w1 = "issue (PineGet ''application'') example_world"
  let ?only = "\<lparr>patch_should_be_running__release = None,
                 patch_should_track_latest_release = Some True\<rparr>"
  have g: "get example_world (Str ''Fresh'') track_options = (Inr ?a, ?w1)"
    by (simp add: get_def track_options_def latest_release_query_def run_release_query_def
        js_sort_def world_simps)
  have q: "qualifying_releases example_world (app_id ?a) = []"
    by (simp add: qualifying_releases_def example_world_def)
  have nf: "fault example_world (PinePatch ''application'' (app_id ?a) ?only) = None"
    by (simp add: example_world_def)
  from trackLatestRelease_request [OF g] q nf
  have r: "requests (snd (trackLatestRelease example_world (Str ''Fresh'')))
        = requests ?w1 @ [PinePatch ''application'' (app_id ?a) ?only]"
    and k: "map row_should_be_running__release
          (applications (snd (trackLatestRelease example_world (Str ''Fresh''))))
        = map row_should_be_running__release (applications example_world)"
    and ok: "fst (trackLatestRelease example_world (Str ''Fresh'')) = Inr ()"
    by blast+
  have r': "requests ?w1 @ [PinePatch ''application'' (app_id ?a) ?only]
      = [PineGet ''application'', PinePatch ''application'' 4 ?only]"
    by (simp add: issue_def example_world_def)
  have k': "map row_should_be_running__release (applications example_world)
      = [Some 10, None, None, Some 10]"
    by (simp add: example_world_def)
  have m: "requests (snd (trackLatestRelease example_world (Num 1)))
       = [PineGet ''application'',
          PinePatch ''application'' 1
            \<lparr>patch_should_be_running__release = Some 11,
             patch_should_track_latest_release = Some True\<rparr>]"
    by (simp add: trackLatestRelease_def get_def latest_release_query_def
        run_release_query_def js_sort_def pine_patch_application_def world_simps)
  from q have q': "qualifying_releases example_world 4 = []" by simp
  from q' ok r r' k k' m show ?thesis by simp
qed

section \<open>Creating an application\<close>

lemma expand_row_requests:
  "expand_row (w\<lparr>requests := rs\<rparr>) = expand_row w"
  by (simp add: fun_eq_iff expand_row_def split: option.splits)

lemma normalizeApplication_requests:
  "normalizeApplication (w\<lparr>requests := rs\<rparr>) = normalizeApplication w"
  by (simp add: fun_eq_iff normalizeApplication_def split: option.splits)

lemma get_requests_irrelevant:
  "fst (get (w\<lparr>requests := rs\<rparr>) r options) = fst (get w r options)"
proof (cases r)
  case Null
  then show ?thesis by (simp add: get_def)
next
  case (Num n)
  then show ?thesis
    by (simp add: get_def pine_get_application_def Let_def expand_row_requests
        normalizeApplication_requests split: option.splits)
next
  case (Str s)
  then show ?thesis
    by (simp add: get_def pine_get_applications_def Let_def expand_row_requests
        normalizeApplication_requests split: option.splits)
qed

lemma applicationTypePromise_result:
  "fst (applicationTypePromise (w\<lparr>requests := rs\<rparr>) params) = fst (applicationTypePromise w params)"
  by (auto simp: applicationTypePromise_def pine_get_by_slug_def Let_def
      split: option.splits sum.splits prod.splits)

lemma applicationTypePromise_world:
  "\<exists>gs. snd (applicationTypePromise w params) = w\<lparr>requests := requests w @ gs\<rparr>
     \<and> set gs \<subseteq> {PineGet ''application_type''}"
proof (cases "snd (applicationTypePromise w params) = w")
  case True
  then have "snd (applicationTypePromise w params) = w\<lparr>requests := requests w @ []\<rparr>
     \<and> set [] \<subseteq> {PineGet ''application_type''}" by simp
  then show ?thesis by blast
next
  case False
  then have "snd (applicationTypePromise w params)
      = w\<lparr>requests := requests w @ [PineGet ''application_type'']\<rparr>"
    by (auto simp: applicationTypePromise_def pine_get_by_slug_def Let_def issue_def
        split: option.splits sum.splits prod.splits if_splits)
  then show ?thesis by auto
qed

lemma parentAppPromise_result:
  "fst (parentAppPromise (w\<lparr>requests := rs\<rparr>) params) = fst (parentAppPromise w params)"
  using get_requests_irrelevant [where w = w and rs = rs and r = "parent params"
      and options = no_options]
  by (auto simp: parentAppPromise_def split: prod.splits)

lemma parentAppPromise_world:
  "\<exists>gs. snd (parentAppPromise w params) = w\<lparr>requests := requests w @ gs\<rparr>
     \<and> set gs \<subseteq> {PineGet ''application''}"
proof -
  from get_world [of w "parent params" no_options]
  have "snd (parentAppPromise w params) = w
      \<or> snd (parentAppPromise w params) = issue (PineGet ''application'') w"
    by (auto simp: parentAppPromise_def split: prod.splits)
  then show ?thesis
  proof
    assume "snd (parentAppPromise w params) = w"
    then have "snd (parentAppPromise w params) = w\<lparr>requests := requests w @ []\<rparr>
       \<and> set [] \<subseteq> {PineGet ''application''}" by simp
    then show ?thesis by blast
  next
    assume "snd (parentAppPromise w params) = issue (PineGet ''application'') w"
    then have "snd (parentAppPromise w params)
        = w\<lparr>requests := requests w @ [PineGet ''application'']\<rparr>
       \<and> set [PineGet ''application''] \<subseteq> {PineGet ''application''}"
      by (simp add: issue_def)
    then show ?thesis by blast
  qed
qed

lemma organizationPromise_result:
  "fst (organizationPromise (w\<lparr>requests := rs\<rparr>) params) = fst (organizationPromise w params)"
  by (auto simp: organizationPromise_def Let_def split: option.splits)

lemma organizationPromise_world:
  "snd (organizationPromise w params) = w\<lparr>requests := requests w @ [PineGet ''organization'']\<rparr>"
  by (auto simp: organizationPromise_def Let_def issue_def split: option.splits)

lemma deviceTypeIdPromise_result:
  "fst (deviceTypeIdPromise (w\<lparr>requests := rs\<rparr>) params) = fst (deviceTypeIdPromise w params)"
  by (auto simp: deviceTypeIdPromise_def pine_get_by_slug_def Let_def
      split: option.splits sum.splits prod.splits)

lemma deviceTypeIdPromise_world:
  "\<exists>gs. snd (deviceTypeIdPromise w params) = w\<lparr>requests := requests w @ gs\<rparr>
     \<and> set gs \<subseteq> {PineGet ''device_type''}"
proof (cases "snd (deviceTypeIdPromise w params) = w")
  case True
  then have "snd (deviceTypeIdPromise w params) = w\<lparr>requests := requests w @ []\<rparr>
     \<and> set [] \<subseteq> {PineGet ''device_type''}" by simp
  then show ?thesis by blast
next
  case False
  then have "snd (deviceTypeIdPromise w params)
      = w\<lparr>requests := requests w @ [PineGet ''device_type'']\<rparr>"
    by (auto simp: deviceTypeIdPromise_def pine_get_by_slug_def Let_def issue_def
        split: option.splits sum.splits prod.splits if_splits)
  then show ?thesis by auto
qed

lemma discontinued_rejected:
  assumes "getManifestBySlug w (deviceType params) = Inr (Some m)"
    and "state m = ''DISCONTINUED''"
  shows "deviceTypeIdPromise w params
    = (Inl (BalenaDiscontinuedDeviceType (deviceType params)), w)"
  using assms by (simp add: deviceTypeIdPromise_def)


lemma requests_update_eq: "w\<lparr>requests := rs\<rparr> = w \<Longrightarrow> requests w = rs"
proof -
  assume "w\<lparr>requests := rs\<rparr> = w"
  then have "requests (w\<lparr>requests := rs\<rparr>) = requests w" by simp
  then show ?thesis by simp
qed

lemma deviceTypeIdPromise_snd:
  "snd (deviceTypeIdPromise w params) =
     (case getManifestBySlug w (deviceType params) of
        Inr (Some m) \<Rightarrow>
          if state m = ''DISCONTINUED'' then w
          else w\<lparr>requests := requests w @ [PineGet ''device_type'']\<rparr>
      | _ \<Rightarrow> w)"
  by (auto simp: deviceTypeIdPromise_def pine_get_by_slug_def Let_def issue_def
      split: option.splits sum.splits prod.splits)

lemma first_rejection_member:
  "first_rejection ls rejected = Some e \<Longrightarrow> \<exists>l \<in> set ls. rejected l = Some e"
  by (induction ls) (auto split: option.splits)

lemma first_rejection_none:
  "first_rejection ls rejected = None \<longleftrightarrow> (\<forall>l \<in> set ls. rejected l = None)"
  by (induction ls) (auto split: option.splits)

lemma Promise_all_member:
  "Promise_all settle_order rejected = Some e \<Longrightarrow> \<exists>l. rejected l = Some e"
  unfolding Promise_all_def by (blast dest: first_rejection_member)

lemma Promise_all_rejects:
  assumes "rejected l = Some e"
  shows "\<exists>e'. Promise_all settle_order rejected = Some e'"
proof -
  have "l \<in> set (settle_order @
      [DeviceTypeLookup, ApplicationTypeLookup, ParentLookup, OrganizationLookup])"
    by (cases l) simp_all
  with assms have "first_rejection (settle_order @
      [DeviceTypeLookup, ApplicationTypeLookup, ParentLookup, OrganizationLookup]) rejected
      \<noteq> None"
    unfolding first_rejection_none by force
  then show ?thesis unfolding Promise_all_def by auto
qed

lemma Promise_all_first:
  "rejected l = Some e \<Longrightarrow> Promise_all (l # rest) rejected = Some e"
  by (simp add: Promise_all_def)

lemma Promise_all_only:
  assumes "rejected l = Some e" and "\<forall>k. k \<noteq> l \<longrightarrow> rejected k = None"
  shows "Promise_all settle_order rejected = Some e"
proof -
  from assms(1) have "\<exists>e'. Promise_all settle_order rejected = Some e'"
    by (rule Promise_all_rejects)
  then obtain e' where e': "Promise_all settle_order rejected = Some e'" by blast
  from Promise_all_member [OF e'] obtain k where "rejected k = Some e'" by blast
  with assms have "e' = e" by (cases "k = l") auto
  with e' show ?thesis by simp
qed

lemma create_rejected:
  assumes org: "organization params \<noteq> Null"
    and rej: "Promise_all settle_order (lookup_error w params) = Some e"
  shows "\<exists>gs g4. create w settle_order params = (Inl e, w\<lparr>requests := requests w @ gs @ g4\<rparr>)
    \<and> set gs \<subseteq> {PineGet ''application_type'', PineGet ''application'', PineGet ''organization''}
    \<and> set g4 \<subseteq> {PineGet ''device_type''}
    \<and> (snd (deviceTypeIdPromise w params) = w \<longrightarrow> g4 = [])"
proof -
  obtain at w1 where p1: "applicationTypePromise w params = (at, w1)"
    by (cases "applicationTypePromise w params")
  from applicationTypePromise_world [of w params] p1 obtain g1
    where w1: "w1 = w\<lparr>requests := requests w @ g1\<rparr>"
      and g1: "set g1 \<subseteq> {PineGet ''application_type''}" by auto
  obtain pa w2 where p2: "parentAppPromise w1 params = (pa, w2)"
    by (cases "parentAppPromise w1 params")
  from parentAppPromise_world [of w1 params] p2 obtain g2
    where w2: "w2 = w1\<lparr>requests := requests w1 @ g2\<rparr>"
      and g2: "set g2 \<subseteq> {PineGet ''application''}" by auto
  obtain oi w3 where p3: "organizationPromise w2 params = (oi, w3)"
    by (cases "organizationPromise w2 params")
  from organizationPromise_world [of w2 params] p3
  have w3: "w3 = w2\<lparr>requests := requests w2 @ [PineGet ''organization'']\<rparr>" by simp
  obtain di w4 where p4: "deviceTypeIdPromise w3 params = (di, w4)"
    by (cases "deviceTypeIdPromise w3 params")
  from deviceTypeIdPromise_world [of w3 params] p4 obtain g4
    where w4: "w4 = w3\<lparr>requests := requests w3 @ g4\<rparr>"
      and g4: "set g4 \<subseteq> {PineGet ''device_type''}" by auto
  have w2': "w2 = w\<lparr>requests := requests w @ g1 @ g2\<rparr>"
    using w1 w2 by simp
  have w3': "w3 = w\<lparr>requests := requests w @ g1 @ g2 @ [PineGet ''organization'']\<rparr>"
    using w2' w3 by simp
  have w4': "w4 = w\<lparr>requests := requests w @ (g1 @ g2 @ [PineGet ''organization'']) @ g4\<rparr>"
    using w3' w4 by simp
  have r1: "at = fst (applicationTypePromise w params)" using p1 by simp
  have r2: "pa = fst (parentAppPromise w params)"
    using p2 parentAppPromise_result [where w = w and rs = "requests w @ g1" and params = params] w1 by simp
  have r3: "oi = fst (organizationPromise w params)"
    using p3 organizationPromise_result
      [where w = w and rs = "requests w @ g1 @ g2" and params = params] w2' by simp
  have r4: "di = fst (deviceTypeIdPromise w params)"
    using p4 deviceTypeIdPromise_result
      [where w = w and rs = "requests w @ g1 @ g2 @ [PineGet ''organization'']"
        and params = params] w3' by simp
  have rejected: "(\<lambda>l. case l of
        DeviceTypeLookup \<Rightarrow> (case di of Inl e \<Rightarrow> Some e | Inr _ \<Rightarrow> None)
      | ApplicationTypeLookup \<Rightarrow> (case at of Some (Inl e) \<Rightarrow> Some e | _ \<Rightarrow> None)
      | ParentLookup \<Rightarrow> (case pa of Some (Inl e) \<Rightarrow> Some e | _ \<Rightarrow> None)
      | OrganizationLookup \<Rightarrow> (case oi of Inl e \<Rightarrow> Some e | Inr _ \<Rightarrow> None))
      = lookup_error w params"
    unfolding r1 r2 r3 r4 lookup_error_def by (rule refl)
  have c: "create w settle_order params = (Inl e, w4)"
    using org rej by (simp add: create_def p1 p2 p3 p4 rejected)
  have none: "snd (deviceTypeIdPromise w params) = w \<longrightarrow> g4 = []"
  proof
    assume "snd (deviceTypeIdPromise w params) = w"
    then have "snd (deviceTypeIdPromise w3 params) = w3"
      unfolding deviceTypeIdPromise_snd w3'
      by (auto split: sum.splits option.splits if_splits dest!: requests_update_eq)
    with p4 w4 show "g4 = []" by (cases w3) simp
  qed
  have gs: "set (g1 @ g2 @ [PineGet ''organization''])
      \<subseteq> {PineGet ''application_type'', PineGet ''application'', PineGet ''organization''}"
    using g1 g2 by auto
  from c w4' gs g4 none show ?thesis by blast
qed


lemma get_resin_world:
  "snd (get_resin w r options) = w
   \<or> snd (get_resin w r options) = issue (PineGet ''application'') w"
  by (cases r)
    (auto simp: get_resin_def pine_get_application_def pine_get_applications_def Let_def
      split: option.splits sum.splits prod.splits)

lemma first_rejection_prefix:
  assumes "\<forall>k \<in> set pre. rejected k = None" and "rejected l = Some e"
  shows "first_rejection (pre @ l # rest) rejected = Some e"
  using assms by (induction pre) simp_all

lemma Promise_all_prefix:
  assumes "settle_order @
      [DeviceTypeLookup, ApplicationTypeLookup, ParentLookup, OrganizationLookup]
      = pre @ l # rest"
    and "\<forall>k \<in> set pre. rejected k = None" and "rejected l = Some e"
  shows "Promise_all settle_order rejected = Some e"
  unfolding Promise_all_def assms(1)
  using assms(2,3) by (rule first_rejection_prefix)

lemma Promise_all_none:
  "Promise_all settle_order rejected = None \<longleftrightarrow> (\<forall>l. rejected l = None)"
proof
  assume n: "Promise_all settle_order rejected = None"
  show "\<forall>l. rejected l = None"
  proof
    fix l
    show "rejected l = None"
    proof (cases "rejected l")
      case None
      then show ?thesis .
    next
      case (Some e)
      then have "\<exists>e'. Promise_all settle_order rejected = Some e'"
        by (rule Promise_all_rejects)
      with n show ?thesis by simp
    qed
  qed
next
  assume "\<forall>l. rejected l = None"
  then show "Promise_all settle_order rejected = None"
    unfolding Promise_all_def first_rejection_none by simp
qed

lemma parentAppPromise_resin_world:
  "\<exists>gs. snd (parentAppPromise_resin w p) = w\<lparr>requests := requests w @ gs\<rparr>
     \<and> set gs \<subseteq> {PineGet ''application''}"
proof -
  from get_resin_world [of w p no_options]
  have "snd (parentAppPromise_resin w p) = w
      \<or> snd (parentAppPromise_resin w p) = issue (PineGet ''application'') w"
    by (auto simp: parentAppPromise_resin_def split: prod.splits if_splits)
  then show ?thesis
  proof
    assume "snd (parentAppPromise_resin w p) = w"
    then have "snd (parentAppPromise_resin w p) = w\<lparr>requests := requests w @ []\<rparr>
       \<and> set [] \<subseteq> {PineGet ''application''}" by simp
    then show ?thesis by blast
  next
    assume "snd (parentAppPromise_resin w p) = issue (PineGet ''application'') w"
    then have "snd (parentAppPromise_resin w p)
        = w\<lparr>requests := requests w @ [PineGet ''application'']\<rparr>
       \<and> set [PineGet ''application''] \<subseteq> {PineGet ''application''}"
      by (simp add: issue_def)
    then show ?thesis by blast
  qed
qed

lemma create_resin_Promise_all:
  "create_resin deps w settle_order nm dt p =
     (case Promise_all settle_order (lookup_error_resin deps w dt p) of
        Some e \<Rightarrow> (Inl e, snd (parentAppPromise_resin w p))
      | None \<Rightarrow>
          (case deviceSlugPromise deps dt of
             Inl e \<Rightarrow> (Inl e, snd (parentAppPromise_resin w p))
           | Inr deviceSlug \<Rightarrow>
               (let w2 = issue (PinePost ''application'') (snd (parentAppPromise_resin w p))
                in case fault (snd (parentAppPromise_resin w p)) (PinePost ''application'') of
                     Some e \<Rightarrow> (Inl e, w2)
                   | None \<Rightarrow>
                       (case resin_post_application deps nm deviceSlug
                               (case fst (parentAppPromise_resin w p) of
                                  Some (Inr a) \<Rightarrow> Some (app_id a)
                                | _ \<Rightarrow> None) of
                          Inl e \<Rightarrow> (Inl e, w2)
                        | Inr r \<Rightarrow>
                            (Inr (expand_row w no_options r),
                             w2\<lparr>applications := applications w @ [r]\<rparr>)))))"
proof -
  obtain pa w1 where p1: "parentAppPromise_resin w p = (pa, w1)"
    by (cases "parentAppPromise_resin w p")
  have rej: "(\<lambda>l. case l of
       DeviceTypeLookup \<Rightarrow>
         (case deviceSlugPromise deps dt of Inl e \<Rightarrow> Some e | Inr _ \<Rightarrow> None)
     | ParentLookup \<Rightarrow> (case pa of Some (Inl e) \<Rightarrow> Some e | _ \<Rightarrow> None)
     | _ \<Rightarrow> None) = lookup_error_resin deps w dt p"
    unfolding lookup_error_resin_def p1 fst_conv by (rule refl)
  show ?thesis
    unfolding create_resin_def p1 prod.case rej fst_conv snd_conv by (rule refl)
qed

lemma create_resin_rejected:
  assumes "Promise_all settle_order (lookup_error_resin deps w dt p) = Some e"
  shows "\<exists>gs. create_resin deps w settle_order nm dt p
        = (Inl e, w\<lparr>requests := requests w @ gs\<rparr>)
    \<and> set gs \<subseteq> {PineGet ''application''}"
  using parentAppPromise_resin_world [of w p] assms
  by (simp add: create_resin_Promise_all)

lemma create_resin_posts:
  assumes "Promise_all settle_order (lookup_error_resin deps w dt p) = None"
  shows "PinePost ''application'' \<in> set (requests (snd (create_resin deps w settle_order nm dt p)))"
proof -
  from assms have "lookup_error_resin deps w dt p DeviceTypeLookup = None"
    unfolding Promise_all_none by blast
  then obtain deviceSlug where d: "deviceSlugPromise deps dt = Inr deviceSlug"
    by (cases "deviceSlugPromise deps dt") (auto simp: lookup_error_resin_def)
  show ?thesis
    using assms d
    by (auto simp: create_resin_Promise_all Let_def issue_def
        split: option.splits sum.splits)
qed

lemmas create_simps =
  create_def Promise_all_def applicationTypePromise_def parentAppPromise_def
  organizationPromise_def deviceTypeIdPromise_def pine_get_by_slug_def
  pine_post_application_def lookup_error_def truthy_def isId_def get_def

lemmas create_resin_simps =
  create_resin_def Promise_all_def parentAppPromise_resin_def deviceSlugPromise_def
  lookup_error_resin_def get_resin_def truthy_def example_resin_deps_def

text \<open>
  C1 (counterexample). The claim has the operation reject with the error of the lookup
  that fails. Two lookups can fail in one call, and \<open>Promise.all\<close> rejects with the
  failure it sees first: with no application type \<open>bogus\<close> and the ambiguous parent
  \<open>Twin\<close>, the application-type lookup fails with "Invalid application type", and when
  the parent lookup settles first the operation rejects with
  \<open>BalenaAmbiguousApplication\<close>.
\<close>

theorem create_fail_fast_counterexample:
  "lookup_error example_world
      \<lparr>name = ''New'', applicationType = Some ''bogus'', deviceType = ''raspberry-pi'',
       parent = Str ''Twin'', organization = Str ''acme''\<rparr>
      ApplicationTypeLookup
     = Some (Error ''Invalid application type: bogus'')
   \<and> fst (create example_world [ParentLookup]
         \<lparr>name = ''New'', applicationType = Some ''bogus'', deviceType = ''raspberry-pi'',
          parent = Str ''Twin'', organization = Str ''acme''\<rparr>)
     = Inl (BalenaAmbiguousApplication (Str ''Twin''))"
  by (simp add: create_simps world_simps)

text \<open>
  C1 (amended). For every \<open>create\<close> that starts its lookups (an organization is given):
  if one of the four lookups (device type, application type, parent, organization)
  fails, the operation rejects with the error of a failing lookup, namely of the
  failing lookup that settles first: a lookup's own error when every lookup that
  settles before it succeeds, in particular when it settles first or is the only one
  to fail. No creation request is issued on \<open>application\<close>: the requests of the call
  hold no \<open>POST\<close>. The \<open>create\<close> of the older SDK, with its two lookups (device slug and
  parent), does the same.
\<close>

theorem create_fail_fast:
  "(organization params \<noteq> Null \<and> lookup_error w params l = Some e \<longrightarrow>
      (\<exists>l' e'. lookup_error w params l' = Some e'
          \<and> fst (create w settle_order params) = Inl e')
    \<and> (\<forall>pre rest.
          settle_order @
            [DeviceTypeLookup, ApplicationTypeLookup, ParentLookup, OrganizationLookup]
            = pre @ l # rest
          \<and> (\<forall>k \<in> set pre. lookup_error w params k = None)
          \<longrightarrow> fst (create w settle_order params) = Inl e)
    \<and> ((\<forall>k. k \<noteq> l \<longrightarrow> lookup_error w params k = None)
          \<longrightarrow> fst (create w settle_order params) = Inl e)
    \<and> (\<forall>rest. fst (create w (l # rest) params) = Inl e)
    \<and> (\<exists>gs. requests (snd (create w settle_order params)) = requests w @ gs
          \<and> PinePost ''application'' \<notin> set gs))
   \<and> (lookup_error_resin deps w dt p l = Some e \<longrightarrow>
      (\<exists>l' e'. lookup_error_resin deps w dt p l' = Some e'
          \<and> fst (create_resin deps w settle_order nm dt p) = Inl e')
    \<and> (\<forall>pre rest.
          settle_order @
            [DeviceTypeLookup, ApplicationTypeLookup, ParentLookup, OrganizationLookup]
            = pre @ l # rest
          \<and> (\<forall>k \<in> set pre. lookup_error_resin deps w dt p k = None)
          \<longrightarrow> fst (create_resin deps w settle_order nm dt p) = Inl e)
    \<and> ((\<forall>k. k \<noteq> l \<longrightarrow> lookup_error_resin deps w dt p k = None)
          \<longrightarrow> fst (create_resin deps w settle_order nm dt p) = Inl e)
    \<and> (\<forall>rest. fst (create_resin deps w (l # rest) nm dt p) = Inl e)
    \<and> (\<exists>gs. requests (snd (create_resin deps w settle_order nm dt p)) = requests w @ gs
          \<and> PinePost ''application'' \<notin> set gs))"
proof (rule conjI; rule impI)
  assume h: "organization params \<noteq> Null \<and> lookup_error w params l = Some e"
  then have org: "organization params \<noteq> Null" and l: "lookup_error w params l = Some e"
    by simp_all
  from l have "\<exists>e'. Promise_all settle_order (lookup_error w params) = Some e'"
    by (rule Promise_all_rejects)
  then obtain e' where e': "Promise_all settle_order (lookup_error w params) = Some e'"
    by blast
  from create_rejected [OF org e'] obtain gs g4 where
    c: "create w settle_order params = (Inl e', w\<lparr>requests := requests w @ gs @ g4\<rparr>)"
    and gs: "set gs \<subseteq> {PineGet ''application_type'', PineGet ''application'',
        PineGet ''organization''}"
    and g4: "set g4 \<subseteq> {PineGet ''device_type''}"
    by blast
  from Promise_all_member [OF e'] c
  have 1: "\<exists>l' e'. lookup_error w params l' = Some e'
      \<and> fst (create w settle_order params) = Inl e'"
    by auto
  have 2: "\<forall>pre rest.
          settle_order @
            [DeviceTypeLookup, ApplicationTypeLookup, ParentLookup, OrganizationLookup]
            = pre @ l # rest
          \<and> (\<forall>k \<in> set pre. lookup_error w params k = None)
          \<longrightarrow> fst (create w settle_order params) = Inl e"
  proof (intro allI impI, elim conjE)
    fix pre rest
    assume "settle_order @
        [DeviceTypeLookup, ApplicationTypeLookup, ParentLookup, OrganizationLookup]
        = pre @ l # rest"
      and "\<forall>k \<in> set pre. lookup_error w params k = None"
    then have "Promise_all settle_order (lookup_error w params) = Some e"
      using l by (rule Promise_all_prefix)
    with e' c show "fst (create w settle_order params) = Inl e" by simp
  qed
  have 3: "(\<forall>k. k \<noteq> l \<longrightarrow> lookup_error w params k = None)
      \<longrightarrow> fst (create w settle_order params) = Inl e"
  proof
    assume "\<forall>k. k \<noteq> l \<longrightarrow> lookup_error w params k = None"
    with l have "Promise_all settle_order (lookup_error w params) = Some e"
      by (rule Promise_all_only)
    with e' c show "fst (create w settle_order params) = Inl e" by simp
  qed
  have 4: "\<forall>rest. fst (create w (l # rest) params) = Inl e"
  proof
    fix rest
    from l have "Promise_all (l # rest) (lookup_error w params) = Some e"
      by (rule Promise_all_first)
    from create_rejected [OF org this] show "fst (create w (l # rest) params) = Inl e"
      by auto
  qed
  from c gs g4 have "requests (snd (create w settle_order params)) = requests w @ (gs @ g4)
      \<and> PinePost ''application'' \<notin> set (gs @ g4)"
    by auto
  then have 5: "\<exists>gs. requests (snd (create w settle_order params)) = requests w @ gs
      \<and> PinePost ''application'' \<notin> set gs"
    by blast
  from 1 2 3 4 5
  show "(\<exists>l' e'. lookup_error w params l' = Some e'
          \<and> fst (create w settle_order params) = Inl e')
    \<and> (\<forall>pre rest.
          settle_order @
            [DeviceTypeLookup, ApplicationTypeLookup, ParentLookup, OrganizationLookup]
            = pre @ l # rest
          \<and> (\<forall>k \<in> set pre. lookup_error w params k = None)
          \<longrightarrow> fst (create w settle_order params) = Inl e)
    \<and> ((\<forall>k. k \<noteq> l \<longrightarrow> lookup_error w params k = None)
          \<longrightarrow> fst (create w settle_order params) = Inl e)
    \<and> (\<forall>rest. fst (create w (l # rest) params) = Inl e)
    \<and> (\<exists>gs. requests (snd (create w settle_order params)) = requests w @ gs
          \<and> PinePost ''application'' \<notin> set gs)"
    by (intro conjI)
next
  assume l: "lookup_error_resin deps w dt p l = Some e"
  then have "\<exists>e'. Promise_all settle_order (lookup_error_resin deps w dt p) = Some e'"
    by (rule Promise_all_rejects)
  then obtain e' where e': "Promise_all settle_order (lookup_error_resin deps w dt p) = Some e'"
    by blast
  from create_resin_rejected [OF e', of nm] obtain gs where
    c: "create_resin deps w settle_order nm dt p = (Inl e', w\<lparr>requests := requests w @ gs\<rparr>)"
    and gs: "set gs \<subseteq> {PineGet ''application''}"
    by blast
  from Promise_all_member [OF e'] c
  have 1: "\<exists>l' e'. lookup_error_resin deps w dt p l' = Some e'
      \<and> fst (create_resin deps w settle_order nm dt p) = Inl e'"
    by auto
  have 2: "\<forall>pre rest.
          settle_order @
            [DeviceTypeLookup, ApplicationTypeLookup, ParentLookup, OrganizationLookup]
            = pre @ l # rest
          \<and> (\<forall>k \<in> set pre. lookup_error_resin deps w dt p k = None)
          \<longrightarrow> fst (create_resin deps w settle_order nm dt p) = Inl e"
  proof (intro allI impI, elim conjE)
    fix pre rest
    assume "settle_order @
        [DeviceTypeLookup, ApplicationTypeLookup, ParentLookup, OrganizationLookup]
        = pre @ l # rest"
      and "\<forall>k \<in> set pre. lookup_error_resin deps w dt p k = None"
    then have "Promise_all settle_order (lookup_error_resin deps w dt p) = Some e"
      using l by (rule Promise_all_prefix)
    with e' c show "fst (create_resin deps w settle_order nm dt p) = Inl e" by simp
  qed
  have 3: "(\<forall>k. k \<noteq> l \<longrightarrow> lookup_error_resin deps w dt p k = None)
      \<longrightarrow> fst (create_resin deps w settle_order nm dt p) = Inl e"
  proof
    assume "\<forall>k. k \<noteq> l \<longrightarrow> lookup_error_resin deps w dt p k = None"
    with l have "Promise_all settle_order (lookup_error_resin deps w dt p) = Some e"
      by (rule Promise_all_only)
    with e' c show "fst (create_resin deps w settle_order nm dt p) = Inl e" by simp
  qed
  have 4: "\<forall>rest. fst (create_resin deps w (l # rest) nm dt p) = Inl e"
  proof
    fix rest
    from l have "Promise_all (l # rest) (lookup_error_resin deps w dt p) = Some e"
      by (rule Promise_all_first)
    from create_resin_rejected [OF this, of nm]
    show "fst (create_resin deps w (l # rest) nm dt p) = Inl e" by auto
  qed
  from c gs have "requests (snd (create_resin deps w settle_order nm dt p)) = requests w @ gs
      \<and> PinePost ''application'' \<notin> set gs"
    by auto
  then have 5: "\<exists>gs. requests (snd (create_resin deps w settle_order nm dt p)) = requests w @ gs
      \<and> PinePost ''application'' \<notin> set gs"
    by blast
  from 1 2 3 4 5
  show "(\<exists>l' e'. lookup_error_resin deps w dt p l' = Some e'
          \<and> fst (create_resin deps w settle_order nm dt p) = Inl e')
    \<and> (\<forall>pre rest.
          settle_order @
            [DeviceTypeLookup, ApplicationTypeLookup, ParentLookup, OrganizationLookup]
            = pre @ l # rest
          \<and> (\<forall>k \<in> set pre. lookup_error_resin deps w dt p k = None)
          \<longrightarrow> fst (create_resin deps w settle_order nm dt p) = Inl e)
    \<and> ((\<forall>k. k \<noteq> l \<longrightarrow> lookup_error_resin deps w dt p k = None)
          \<longrightarrow> fst (create_resin deps w settle_order nm dt p) = Inl e)
    \<and> (\<forall>rest. fst (create_resin deps w (l # rest) nm dt p) = Inl e)
    \<and> (\<exists>gs. requests (snd (create_resin deps w settle_order nm dt p)) = requests w @ gs
          \<and> PinePost ''application'' \<notin> set gs)"
    by (intro conjI)
qed

text \<open>
  The theorem in the small fleet. There is no application type \<open>bogus\<close> and the parent
  \<open>Twin\<close> is ambiguous: when the organization and the application type settle before
  the parent, the error is that of the application type, the first to fail. The older
  \<open>create\<close> is given the same parent, the only one of its lookups to fail.
\<close>

theorem create_fail_fast_witness:
  "fst (create example_world [OrganizationLookup, ApplicationTypeLookup, ParentLookup]
         \<lparr>name = ''New'', applicationType = Some ''bogus'', deviceType = ''raspberry-pi'',
          parent = Str ''Twin'', organization = Str ''acme''\<rparr>)
     = Inl (Error ''Invalid application type: bogus'')
   \<and> requests (snd (create example_world
         [OrganizationLookup, ApplicationTypeLookup, ParentLookup]
         \<lparr>name = ''New'', applicationType = Some ''bogus'', deviceType = ''raspberry-pi'',
          parent = Str ''Twin'', organization = Str ''acme''\<rparr>))
     = [PineGet ''application_type'', PineGet ''application'', PineGet ''organization'',
        PineGet ''device_type'']
   \<and> fst (create_resin example_resin_deps example_world [] ''New'' ''raspberry-pi'' (Str ''Twin''))
     = Inl (ResinAmbiguousApplication (Str ''Twin''))"
proof -
  let ?params = "\<lparr>name = ''New'', applicationType = Some ''bogus'',
      deviceType = ''raspberry-pi'', parent = Str ''Twin'', organization = Str ''acme''\<rparr>"
  let ?order = "[OrganizationLookup, ApplicationTypeLookup, ParentLookup]"
  let ?e = "Error ''Invalid application type: bogus''"
  let ?r = "ResinAmbiguousApplication (Str ''Twin'')"
  have org: "organization ?params \<noteq> Null" by simp
  have l: "lookup_error example_world ?params ApplicationTypeLookup = Some ?e"
    by (simp add: create_simps world_simps)
  have split: "?order @
      [DeviceTypeLookup, ApplicationTypeLookup, ParentLookup, OrganizationLookup]
      = [OrganizationLookup] @ ApplicationTypeLookup #
        [ParentLookup, DeviceTypeLookup, ApplicationTypeLookup, ParentLookup,
         OrganizationLookup]"
    by simp
  have before: "\<forall>k \<in> set [OrganizationLookup]. lookup_error example_world ?params k = None"
    by (simp add: create_simps world_simps)
  have h: "organization ?params \<noteq> Null
      \<and> lookup_error example_world ?params ApplicationTypeLookup = Some ?e"
    using org l by (rule conjI)
  note t = create_fail_fast [where params = ?params and w = example_world
      and l = ApplicationTypeLookup and e = ?e and settle_order = ?order,
      THEN conjunct1, THEN mp, OF h]
  note first = t [THEN conjunct2, THEN conjunct1, THEN spec, THEN spec, THEN mp]
  have a: "fst (create example_world ?order ?params) = Inl ?e"
    by (rule first [OF conjI [OF split before]])
  have b: "requests (snd (create example_world ?order ?params))
     = [PineGet ''application_type'', PineGet ''application'', PineGet ''organization'',
        PineGet ''device_type'']"
    by (simp add: create_simps world_simps)
  have p: "lookup_error_resin example_resin_deps example_world ''raspberry-pi'' (Str ''Twin'')
      ParentLookup = Some ?r"
    by (simp add: create_resin_simps world_simps)
  have only: "\<forall>k. k \<noteq> ParentLookup \<longrightarrow>
      lookup_error_resin example_resin_deps example_world ''raspberry-pi'' (Str ''Twin'') k
        = None"
  proof (intro allI impI)
    fix k :: lookup
    assume "k \<noteq> ParentLookup"
    then show "lookup_error_resin example_resin_deps example_world ''raspberry-pi''
        (Str ''Twin'') k = None"
      by (cases k) (simp_all add: create_resin_simps world_simps)
  qed
  note u = create_fail_fast [where deps = example_resin_deps and w = example_world
      and dt = "''raspberry-pi''" and p = "Str ''Twin''" and l = ParentLookup and e = ?r
      and settle_order = "[]" and nm = "''New''",
      THEN conjunct2, THEN mp, OF p]
  note sole = u [THEN conjunct2, THEN conjunct2, THEN conjunct1, THEN mp]
  have c: "fst (create_resin example_resin_deps example_world [] ''New'' ''raspberry-pi''
      (Str ''Twin'')) = Inl ?r"
    by (rule sole [OF only])
  from a b c show ?thesis by (intro conjI)
qed

section \<open>Discontinued device types\<close>

text \<open>
  C6 (counterexample). The claim has every \<open>create\<close> for a discontinued device type fail
  with \<open>BalenaDiscontinuedDeviceType\<close>, raised by the client. The four lookups run side
  by side and \<open>Promise.all\<close> rejects with the failure it sees first: when the
  organization does not exist either and its lookup settles first, the error is
  \<open>BalenaOrganizationNotFound\<close>. The \<open>create\<close> of the older SDK never looks at the state of
  the device type: once its device model resolves the slug it issues the creation
  request.
\<close>

theorem create_discontinued_counterexample:
  "getManifestBySlug example_world ''old-board''
     = Inr (Some \<lparr>manifest_slug = ''old-board'', state = ''DISCONTINUED''\<rparr>)
   \<and> fst (create example_world [OrganizationLookup]
         \<lparr>name = ''New'', applicationType = None, deviceType = ''old-board'',
          parent = Null, organization = Str ''ghost''\<rparr>)
     = Inl (BalenaOrganizationNotFound (Str ''ghost''))
   \<and> getDeviceSlug example_resin_deps ''old-board'' = Inr (Some ''old-board'')
   \<and> requests (snd (create_resin example_resin_deps example_world [] ''New'' ''old-board'' Null))
     = [PinePost ''application'']"
  by (simp add: create_simps create_resin_simps world_simps)

text \<open>
  C6 (amended). For every \<open>create\<close> with an organization given whose device type
  resolves to a catalog entry in the state \<open>DISCONTINUED\<close>: the device-type lookup is
  rejected by the client with \<open>BalenaDiscontinuedDeviceType\<close> without a request of its
  own; the operation fails, and neither the request on \<open>device_type\<close> nor the creation
  request is issued; its error is that of the failing lookup that settles first (a
  lookup's own error when every lookup that settles before it succeeds), so it is
  \<open>BalenaDiscontinuedDeviceType\<close> when every lookup that settles before the device-type
  lookup succeeds, in particular when no other lookup fails or when the device-type
  lookup settles first. The \<open>create\<close> of the older SDK has no lifecycle check of its
  own: whenever its device model resolves the device type to a slug and the parent
  lookup does not fail, it issues the creation request.
\<close>

theorem create_discontinued:
  "(organization params \<noteq> Null
     \<and> getManifestBySlug w (deviceType params) = Inr (Some m)
     \<and> state m = ''DISCONTINUED'' \<longrightarrow>
      deviceTypeIdPromise w params
        = (Inl (BalenaDiscontinuedDeviceType (deviceType params)), w)
    \<and> (\<exists>l e. lookup_error w params l = Some e \<and> fst (create w settle_order params) = Inl e)
    \<and> (\<forall>l e pre rest.
          settle_order @
            [DeviceTypeLookup, ApplicationTypeLookup, ParentLookup, OrganizationLookup]
            = pre @ l # rest
          \<and> (\<forall>k \<in> set pre. lookup_error w params k = None)
          \<and> lookup_error w params l = Some e
          \<longrightarrow> fst (create w settle_order params) = Inl e)
    \<and> (\<forall>pre rest.
          settle_order @
            [DeviceTypeLookup, ApplicationTypeLookup, ParentLookup, OrganizationLookup]
            = pre @ DeviceTypeLookup # rest
          \<and> (\<forall>k \<in> set pre. lookup_error w params k = None)
          \<longrightarrow> fst (create w settle_order params)
              = Inl (BalenaDiscontinuedDeviceType (deviceType params)))
    \<and> (\<exists>gs. requests (snd (create w settle_order params)) = requests w @ gs
          \<and> PinePost ''application'' \<notin> set gs \<and> PineGet ''device_type'' \<notin> set gs)
    \<and> ((\<forall>k. k \<noteq> DeviceTypeLookup \<longrightarrow> lookup_error w params k = None)
          \<longrightarrow> fst (create w settle_order params)
              = Inl (BalenaDiscontinuedDeviceType (deviceType params)))
    \<and> (\<forall>rest. fst (create w (DeviceTypeLookup # rest) params)
          = Inl (BalenaDiscontinuedDeviceType (deviceType params))))
   \<and> (getDeviceSlug deps dt = Inr (Some deviceSlug)
     \<and> lookup_error_resin deps w dt p ParentLookup = None \<longrightarrow>
      PinePost ''application''
        \<in> set (requests (snd (create_resin deps w settle_order nm dt p))))"
proof (rule conjI; rule impI)
  assume h: "organization params \<noteq> Null
     \<and> getManifestBySlug w (deviceType params) = Inr (Some m)
     \<and> state m = ''DISCONTINUED''"
  then have org: "organization params \<noteq> Null"
    and manifest: "getManifestBySlug w (deviceType params) = Inr (Some m)"
    and discontinued: "state m = ''DISCONTINUED''"
    by simp_all
  let ?e = "BalenaDiscontinuedDeviceType (deviceType params)"
  have d: "deviceTypeIdPromise w params = (Inl ?e, w)"
    using manifest discontinued by (rule discontinued_rejected)
  then have l: "lookup_error w params DeviceTypeLookup = Some ?e"
    by (simp add: lookup_error_def)
  from l have "\<exists>e'. Promise_all settle_order (lookup_error w params) = Some e'"
    by (rule Promise_all_rejects)
  then obtain e' where e': "Promise_all settle_order (lookup_error w params) = Some e'"
    by blast
  from d have same: "snd (deviceTypeIdPromise w params) = w" by simp
  from create_rejected [OF org e'] same obtain gs where
    c: "create w settle_order params = (Inl e', w\<lparr>requests := requests w @ gs @ []\<rparr>)"
    and gs: "set gs \<subseteq> {PineGet ''application_type'', PineGet ''application'',
        PineGet ''organization''}"
    by blast
  from Promise_all_member [OF e'] c
  have 1: "\<exists>l e. lookup_error w params l = Some e \<and> fst (create w settle_order params) = Inl e"
    by auto
  have 2: "\<forall>l e pre rest.
          settle_order @
            [DeviceTypeLookup, ApplicationTypeLookup, ParentLookup, OrganizationLookup]
            = pre @ l # rest
          \<and> (\<forall>k \<in> set pre. lookup_error w params k = None)
          \<and> lookup_error w params l = Some e
          \<longrightarrow> fst (create w settle_order params) = Inl e"
  proof (intro allI impI, elim conjE)
    fix l e pre rest
    assume "settle_order @
        [DeviceTypeLookup, ApplicationTypeLookup, ParentLookup, OrganizationLookup]
        = pre @ l # rest"
      and "\<forall>k \<in> set pre. lookup_error w params k = None"
      and "lookup_error w params l = Some e"
    then have "Promise_all settle_order (lookup_error w params) = Some e"
      by (rule Promise_all_prefix)
    with e' c show "fst (create w settle_order params) = Inl e" by simp
  qed
  from 2 l have 3: "\<forall>pre rest.
          settle_order @
            [DeviceTypeLookup, ApplicationTypeLookup, ParentLookup, OrganizationLookup]
            = pre @ DeviceTypeLookup # rest
          \<and> (\<forall>k \<in> set pre. lookup_error w params k = None)
          \<longrightarrow> fst (create w settle_order params) = Inl ?e"
    by blast
  from c gs have "requests (snd (create w settle_order params)) = requests w @ gs
      \<and> PinePost ''application'' \<notin> set gs \<and> PineGet ''device_type'' \<notin> set gs"
    by auto
  then have 4: "\<exists>gs. requests (snd (create w settle_order params)) = requests w @ gs
      \<and> PinePost ''application'' \<notin> set gs \<and> PineGet ''device_type'' \<notin> set gs"
    by blast
  have 5: "(\<forall>k. k \<noteq> DeviceTypeLookup \<longrightarrow> lookup_error w params k = None)
      \<longrightarrow> fst (create w settle_order params) = Inl ?e"
  proof
    assume "\<forall>k. k \<noteq> DeviceTypeLookup \<longrightarrow> lookup_error w params k = None"
    with l have "Promise_all settle_order (lookup_error w params) = Some ?e"
      by (rule Promise_all_only)
    with e' c show "fst (create w settle_order params) = Inl ?e" by simp
  qed
  have 6: "\<forall>rest. fst (create w (DeviceTypeLookup # rest) params) = Inl ?e"
  proof
    fix rest
    from l have "Promise_all (DeviceTypeLookup # rest) (lookup_error w params) = Some ?e"
      by (rule Promise_all_first)
    from create_rejected [OF org this]
    show "fst (create w (DeviceTypeLookup # rest) params) = Inl ?e" by auto
  qed
  from d 1 2 3 4 5 6
  show "deviceTypeIdPromise w params = (Inl ?e, w)
    \<and> (\<exists>l e. lookup_error w params l = Some e \<and> fst (create w settle_order params) = Inl e)
    \<and> (\<forall>l e pre rest.
          settle_order @
            [DeviceTypeLookup, ApplicationTypeLookup, ParentLookup, OrganizationLookup]
            = pre @ l # rest
          \<and> (\<forall>k \<in> set pre. lookup_error w params k = None)
          \<and> lookup_error w params l = Some e
          \<longrightarrow> fst (create w settle_order params) = Inl e)
    \<and> (\<forall>pre rest.
          settle_order @
            [DeviceTypeLookup, ApplicationTypeLookup, ParentLookup, OrganizationLookup]
            = pre @ DeviceTypeLookup # rest
          \<and> (\<forall>k \<in> set pre. lookup_error w params k = None)
          \<longrightarrow> fst (create w settle_order params) = Inl ?e)
    \<and> (\<exists>gs. requests (snd (create w settle_order params)) = requests w @ gs
          \<and> PinePost ''application'' \<notin> set gs \<and> PineGet ''device_type'' \<notin> set gs)
    \<and> ((\<forall>k. k \<noteq> DeviceTypeLookup \<longrightarrow> lookup_error w params k = None)
          \<longrightarrow> fst (create w settle_order params) = Inl ?e)
    \<and> (\<forall>rest. fst (create w (DeviceTypeLookup # rest) params) = Inl ?e)"
    by (intro conjI)
next
  assume h: "getDeviceSlug deps dt = Inr (Some deviceSlug)
     \<and> lookup_error_resin deps w dt p ParentLookup = None"
  then have "\<forall>l. lookup_error_resin deps w dt p l = None"
  proof (intro allI)
    fix l
    from h show "lookup_error_resin deps w dt p l = None"
      by (cases l) (simp_all add: lookup_error_resin_def deviceSlugPromise_def)
  qed
  then have "Promise_all settle_order (lookup_error_resin deps w dt p) = None"
    unfolding Promise_all_none .
  then show "PinePost ''application''
      \<in> set (requests (snd (create_resin deps w settle_order nm dt p)))"
    by (rule create_resin_posts)
qed

text \<open>
  The theorem in the small fleet, for the discontinued \<open>old-board\<close>: alone to fail it
  gives the error; with an unknown application type that settles after it, it still
  does; the older \<open>create\<close> posts.
\<close>

theorem create_discontinued_witness:
  "fst (create example_world []
         \<lparr>name = ''New'', applicationType = None, deviceType = ''old-board'',
          parent = Null, organization = Str ''acme''\<rparr>)
     = Inl (BalenaDiscontinuedDeviceType ''old-board'')
   \<and> requests (snd (create example_world []
         \<lparr>name = ''New'', applicationType = None, deviceType = ''old-board'',
          parent = Null, organization = Str ''acme''\<rparr>))
     = [PineGet ''organization'']
   \<and> fst (create example_world [OrganizationLookup, DeviceTypeLookup, ApplicationTypeLookup]
         \<lparr>name = ''New'', applicationType = Some ''bogus'', deviceType = ''old-board'',
          parent = Null, organization = Str ''acme''\<rparr>)
     = Inl (BalenaDiscontinuedDeviceType ''old-board'')
   \<and> PinePost ''application''
       \<in> set (requests (snd (create_resin example_resin_deps example_world [] ''New''
                ''old-board'' Null)))"
proof -
  let ?params = "\<lparr>name = ''New'', applicationType = None, deviceType = ''old-board'',
      parent = Null, organization = Str ''acme''\<rparr>"
  let ?both = "\<lparr>name = ''New'', applicationType = Some ''bogus'', deviceType = ''old-board'',
      parent = Null, organization = Str ''acme''\<rparr>"
  let ?order = "[OrganizationLookup, DeviceTypeLookup, ApplicationTypeLookup]"
  let ?m = "\<lparr>manifest_slug = ''old-board'', state = ''DISCONTINUED''\<rparr>"
  have org: "organization ?params \<noteq> Null" by simp
  have m: "getManifestBySlug example_world (deviceType ?params) = Inr (Some ?m)"
    by (simp add: example_world_def)
  have s: "state ?m = ''DISCONTINUED''" by simp
  have only: "\<forall>k. k \<noteq> DeviceTypeLookup \<longrightarrow> lookup_error example_world ?params k = None"
  proof (intro allI impI)
    fix k :: lookup
    assume "k \<noteq> DeviceTypeLookup"
    then show "lookup_error example_world ?params k = None"
      by (cases k) (simp_all add: create_simps world_simps)
  qed
  have h: "organization ?params \<noteq> Null
      \<and> getManifestBySlug example_world (deviceType ?params) = Inr (Some ?m)
      \<and> state ?m = ''DISCONTINUED''"
    using org m s by (intro conjI)
  note t = create_discontinued [where params = ?params and w = example_world and m = ?m
      and settle_order = "[]" and deps = example_resin_deps and dt = "''old-board''"
      and deviceSlug = "''old-board''" and p = Null and nm = "''New''"]
  note sole = t [THEN conjunct1, THEN mp, OF h, THEN conjunct2, THEN conjunct2,
      THEN conjunct2, THEN conjunct2, THEN conjunct2, THEN conjunct1, THEN mp, OF only]
  have a: "fst (create example_world [] ?params) = Inl (BalenaDiscontinuedDeviceType ''old-board'')"
    using sole by simp
  have b: "requests (snd (create example_world [] ?params)) = [PineGet ''organization'']"
    by (simp add: create_simps world_simps)
  have org': "organization ?both \<noteq> Null" by simp
  have m': "getManifestBySlug example_world (deviceType ?both) = Inr (Some ?m)"
    by (simp add: example_world_def)
  have split: "?order @
      [DeviceTypeLookup, ApplicationTypeLookup, ParentLookup, OrganizationLookup]
      = [OrganizationLookup] @ DeviceTypeLookup #
        [ApplicationTypeLookup, DeviceTypeLookup, ApplicationTypeLookup, ParentLookup,
         OrganizationLookup]"
    by simp
  have before: "\<forall>k \<in> set [OrganizationLookup]. lookup_error example_world ?both k = None"
    by (simp add: create_simps world_simps)
  have h': "organization ?both \<noteq> Null
      \<and> getManifestBySlug example_world (deviceType ?both) = Inr (Some ?m)
      \<and> state ?m = ''DISCONTINUED''"
    using org' m' s by (intro conjI)
  note u = create_discontinued [where params = ?both and w = example_world and m = ?m
      and settle_order = ?order, THEN conjunct1, THEN mp, OF h']
  note first = u [THEN conjunct2, THEN conjunct2, THEN conjunct2, THEN conjunct1,
      THEN spec, THEN spec, THEN mp, OF conjI [OF split before]]
  have c: "fst (create example_world ?order ?both)
      = Inl (BalenaDiscontinuedDeviceType ''old-board'')"
    using first by simp
  have g: "getDeviceSlug example_resin_deps ''old-board'' = Inr (Some ''old-board'')"
    by (simp add: example_resin_deps_def)
  have q: "lookup_error_resin example_resin_deps example_world ''old-board'' Null ParentLookup
      = None"
    by (simp add: create_resin_simps)
  have d: "PinePost ''application''
       \<in> set (requests (snd (create_resin example_resin_deps example_world [] ''New''
                ''old-board'' Null)))"
    by (rule t [THEN conjunct2, THEN mp, OF conjI [OF g q]])
  from a b c d show ?thesis by (intro conjI)
qed

end
